theory Spec2Isabelle
  imports Complex_Main "HOL-Library.Char_ord"
begin

section \<open>Regular expressions as the extractor uses them\<close>

text \<open>
  The extractor (\<^verbatim>\<open>src/utils/extractMedicalData.ts\<close>) is written with JavaScript regular
  expressions. They are embedded as a first-order syntax tree together with a backtracking
  matcher in the list-of-successes style: the matcher returns every way the pattern can match
  at the head of the input, in the priority order of the ECMAScript semantics (greedy
  quantifiers try one more iteration first, alternatives are tried left to right), so the head
  of the list is the match a JavaScript engine reports.

  A text is a \<^typ>\<open>string\<close>: a list of 8-bit code units. Every literal and class member of the
  source's patterns is an ASCII character, and ECMAScript's case folding never identifies a
  code unit at or above 128 with one below, so folding ASCII letters is all the \<^verbatim>\<open>i\<close> flag
  does here.
\<close>

datatype citem = One char | Range char char | Space | Digit

datatype regex =
    Emp
  | Chr char
  | Cls bool "citem list"
  | Seq regex regex
  | Alt regex regex
  | Rep nat "nat option" regex
  | Grp nat regex
  | Bol

abbreviation Star :: "regex \<Rightarrow> regex" where
  "Star r \<equiv> Rep 0 None r"

abbreviation Plus :: "regex \<Rightarrow> regex" where
  "Plus r \<equiv> Rep (Suc 0) None r"

abbreviation Opt :: "regex \<Rightarrow> regex" where
  "Opt r \<equiv> Rep 0 (Some (Suc 0)) r"

primrec lit :: "string \<Rightarrow> regex" where
  "lit [] = Emp"
| "lit (a # as) = Seq (Chr a) (lit as)"

primrec seqs :: "regex list \<Rightarrow> regex" where
  "seqs [] = Emp"
| "seqs (r # rs) = Seq r (seqs rs)"

type_synonym caps = "(nat \<times> string) list"

definition code :: "char \<Rightarrow> nat" where
  "code c = of_char c"

text \<open>The canonical (upper-case) and the lower-case code of a code unit, ASCII letters only.\<close>

definition ucode :: "char \<Rightarrow> nat" where
  "ucode c = (if 97 \<le> code c \<and> code c \<le> 122 then code c - 32 else code c)"

definition lcode :: "char \<Rightarrow> nat" where
  "lcode c = (if 65 \<le> code c \<and> code c \<le> 90 then code c + 32 else code c)"

text \<open>\<^verbatim>\<open>\s\<close>: the white space and line terminators of ECMAScript that fit in 8 bits:
  TAB, LF, VT, FF, CR, SP and NBSP. \<^verbatim>\<open>String.prototype.trim\<close> strips the same set.\<close>

definition space_code :: "nat \<Rightarrow> bool" where
  "space_code k = ((9 \<le> k \<and> k \<le> 13) \<or> k = 32 \<or> k = 160)"

definition digit_code :: "nat \<Rightarrow> bool" where
  "digit_code k = (48 \<le> k \<and> k \<le> 57)"

fun item_has :: "citem \<Rightarrow> nat \<Rightarrow> bool" where
  "item_has (One a) k = (code a = k)"
| "item_has (Range lo hi) k = (code lo \<le> k \<and> k \<le> code hi)"
| "item_has Space k = space_code k"
| "item_has Digit k = digit_code k"

text \<open>Under the \<^verbatim>\<open>i\<close> flag a class holds a code unit when it has a member with the same
  canonical form: the unit itself or its other case.\<close>

definition cls_has :: "bool \<Rightarrow> citem list \<Rightarrow> char \<Rightarrow> bool" where
  "cls_has ci items c =
     list_ex (\<lambda>it. item_has it (code c) \<or> (ci \<and> (item_has it (ucode c) \<or> item_has it (lcode c)))) items"

definition chr_eq :: "bool \<Rightarrow> char \<Rightarrow> char \<Rightarrow> bool" where
  "chr_eq ci a c = (if ci then ucode a = ucode c else a = c)"

fun rsize :: "regex \<Rightarrow> nat" where
  "rsize (Seq a b) = Suc (rsize a + rsize b)"
| "rsize (Alt a b) = Suc (rsize a + rsize b)"
| "rsize (Rep mn mx r) = Suc (rsize r)"
| "rsize (Grp k r) = Suc (rsize r)"
| "rsize _ = 0"

fun rep_min :: "regex \<Rightarrow> nat" where
  "rep_min (Rep mn mx r) = mn"
| "rep_min _ = 0"

fun groups :: "regex \<Rightarrow> nat list" where
  "groups (Seq a b) = groups a @ groups b"
| "groups (Alt a b) = groups a @ groups b"
| "groups (Rep mn mx r) = groups r"
| "groups (Grp k r) = k # groups r"
| "groups _ = []"

text \<open>A quantifier resets the captures of the groups inside it at the start of each iteration.\<close>

definition clear :: "regex \<Rightarrow> caps \<Rightarrow> caps" where
  "clear r c = filter (\<lambda>kv. fst kv \<notin> set (groups r)) c"

definition dec :: "nat option \<Rightarrow> nat option" where
  "dec mx = map_option (\<lambda>k. k - 1) mx"

text \<open>
  \<open>rmatch ci n r s c\<close>: the flag \<open>ci\<close> is the \<^verbatim>\<open>i\<close> flag, \<open>n\<close> the length of the whole
  input (so that \<^verbatim>\<open>^\<close> can tell the start), \<open>s\<close> the input from the current position on
  and \<open>c\<close> the captures so far. Each result is the rest of the input after the match and the
  captures.

  The quantifier follows ECMAScript's RepeatMatcher: at most \<open>mx\<close> iterations, greedy, and an
  iteration that consumed nothing once the minimum is reached is a failure. The test
  \<open>length s' < length s \<or> (mn \<noteq> 0 \<and> length s' = length s)\<close> is that check, written so
  that the recursion is visibly well founded (a rest is never longer than the input it is
  the rest of, see \<open>rmatch_length\<close>).
\<close>

function rmatch :: "bool \<Rightarrow> nat \<Rightarrow> regex \<Rightarrow> string \<Rightarrow> caps \<Rightarrow> (string \<times> caps) list" where
  "rmatch ci n Emp s c = [(s, c)]"
| "rmatch ci n (Chr a) s c =
     (case s of [] \<Rightarrow> [] | x # xs \<Rightarrow> if chr_eq ci a x then [(xs, c)] else [])"
| "rmatch ci n (Cls neg items) s c =
     (case s of [] \<Rightarrow> [] | x # xs \<Rightarrow> if cls_has ci items x \<noteq> neg then [(xs, c)] else [])"
| "rmatch ci n (Seq a b) s c =
     concat (map (\<lambda>(s', c'). rmatch ci n b s' c') (rmatch ci n a s c))"
| "rmatch ci n (Alt a b) s c = rmatch ci n a s c @ rmatch ci n b s c"
| "rmatch ci n (Grp k r) s c =
     map (\<lambda>(s', c'). (s', (k, take (length s - length s') s) # c')) (rmatch ci n r s c)"
| "rmatch ci n Bol s c = (if length s = n then [(s, c)] else [])"
| "rmatch ci n (Rep mn mx r) s c =
     (if mx = Some 0 then [(s, c)]
      else
        let again = concat (map (\<lambda>(s', c').
                      if length s' < length s \<or> (mn \<noteq> 0 \<and> length s' = length s)
                      then rmatch ci n (Rep (mn - 1) (dec mx) r) s' c'
                      else [])
                    (rmatch ci n r s (clear r c)))
        in if mn \<noteq> 0 then again else again @ [(s, c)])"
  by pat_completeness auto
termination
  by (relation "inv_image (less_than <*lex*> less_than <*lex*> less_than)
        (\<lambda>(ci, n, r, s, c). (rsize r, length s, rep_min r))") auto

subsection \<open>Searching: \<^verbatim>\<open>exec\<close>, \<^verbatim>\<open>match\<close> and \<^verbatim>\<open>replace\<close>\<close>

record found =
  m_index :: nat
  m_text :: string
  m_caps :: caps

text \<open>\<^verbatim>\<open>match[k]\<close>: the text of group \<open>k\<close>, or \<^verbatim>\<open>undefined\<close>.\<close>

definition grp :: "found \<Rightarrow> nat \<Rightarrow> string option" where
  "grp m k = map_of (m_caps m) k"

text \<open>The search tries each start position from the current one to the end of the input and
  reports the first position with a match, and there the match of highest priority.\<close>

fun scan :: "bool \<Rightarrow> nat \<Rightarrow> regex \<Rightarrow> nat \<Rightarrow> string \<Rightarrow> found option" where
  "scan ci n r i [] =
     (case rmatch ci n r [] [] of
        [] \<Rightarrow> None
      | (s', c) # _ \<Rightarrow> Some \<lparr>m_index = i, m_text = [], m_caps = c\<rparr>)"
| "scan ci n r i (x # xs) =
     (case rmatch ci n r (x # xs) [] of
        [] \<Rightarrow> scan ci n r (Suc i) xs
      | (s', c) # _ \<Rightarrow>
          Some \<lparr>m_index = i, m_text = take (length (x # xs) - length s') (x # xs), m_caps = c\<rparr>)"

text \<open>\<^verbatim>\<open>text.match(re)\<close> for a pattern without the \<^verbatim>\<open>g\<close> flag.\<close>

definition js_match :: "bool \<Rightarrow> regex \<Rightarrow> string \<Rightarrow> found option" where
  "js_match ci r s = scan ci (length s) r 0 s"

text \<open>\<^verbatim>\<open>text.match(re)\<close> for a pattern with the \<^verbatim>\<open>g\<close> flag: every match, left to right, each
  search starting where the last match ended (one further after an empty match). The walk is
  over the input from position \<open>i\<close> on; \<open>skip\<close> counts the code units that the last match
  still covers.\<close>

fun match_all :: "bool \<Rightarrow> nat \<Rightarrow> regex \<Rightarrow> nat \<Rightarrow> nat \<Rightarrow> string \<Rightarrow> found list" where
  "match_all ci n r i skip [] =
     (if skip = 0
      then (case rmatch ci n r [] [] of
              [] \<Rightarrow> []
            | (s', c) # _ \<Rightarrow> [\<lparr>m_index = i, m_text = [], m_caps = c\<rparr>])
      else [])"
| "match_all ci n r i skip (x # xs) =
     (if skip > 0 then match_all ci n r (Suc i) (skip - 1) xs
      else (case rmatch ci n r (x # xs) [] of
              [] \<Rightarrow> match_all ci n r (Suc i) 0 xs
            | (s', c) # _ \<Rightarrow>
                let l = length (x # xs) - length s'
                in \<lparr>m_index = i, m_text = take l (x # xs), m_caps = c\<rparr>
                   # match_all ci n r (Suc i) (l - 1) xs))"

definition js_match_all :: "bool \<Rightarrow> regex \<Rightarrow> string \<Rightarrow> found list" where
  "js_match_all ci r s = match_all ci (length s) r 0 0 s"

text \<open>\<^verbatim>\<open>text.slice(a, b)\<close> for indices within the text.\<close>

definition slice :: "string \<Rightarrow> nat \<Rightarrow> nat \<Rightarrow> string" where
  "slice s a b = take (b - a) (drop a s)"

text \<open>\<^verbatim>\<open>text.replace(re, '')\<close> without the \<^verbatim>\<open>g\<close> flag: the first match is cut out.\<close>

definition replace_first :: "bool \<Rightarrow> regex \<Rightarrow> string \<Rightarrow> string" where
  "replace_first ci r s =
     (case js_match ci r s of
        None \<Rightarrow> s
      | Some m \<Rightarrow> take (m_index m) s @ drop (m_index m + length (m_text m)) s)"

text \<open>\<^verbatim>\<open>text.replace(re, '')\<close> with the \<^verbatim>\<open>g\<close> flag: every match is cut out. \<open>cut i ms s\<close>
  removes the matches \<open>ms\<close> from \<open>s\<close>, the input from position \<open>i\<close> on.\<close>

fun cut :: "nat \<Rightarrow> found list \<Rightarrow> string \<Rightarrow> string" where
  "cut i [] s = s"
| "cut i (m # ms) s =
     take (m_index m - i) s
     @ cut (m_index m + length (m_text m)) ms (drop ((m_index m - i) + length (m_text m)) s)"

definition replace_all :: "bool \<Rightarrow> regex \<Rightarrow> string \<Rightarrow> string" where
  "replace_all ci r s = cut 0 (js_match_all ci r s) s"

subsection \<open>String operations of the host language\<close>

definition is_space :: "char \<Rightarrow> bool" where
  "is_space c = space_code (code c)"

definition trim :: "string \<Rightarrow> string" where
  "trim s = rev (dropWhile is_space (rev (dropWhile is_space s)))"

text \<open>\<^verbatim>\<open>toLowerCase\<close> on 8-bit code units: A to Z, and the Latin-1 capitals but the
  multiplication sign.\<close>

definition to_lower :: "char \<Rightarrow> char" where
  "to_lower c =
     (if (65 \<le> code c \<and> code c \<le> 90) \<or> (192 \<le> code c \<and> code c \<le> 222 \<and> code c \<noteq> 215)
      then char_of (code c + 32) else c)"

definition toLowerCase :: "string \<Rightarrow> string" where
  "toLowerCase s = map to_lower s"

text \<open>A JavaScript number as far as the extractor and the formatter use one: the integer that
  \<^verbatim>\<open>parseInt\<close> reads, or \<^verbatim>\<open>NaN\<close> when the text does not start with a digit. (Beyond
  \<open>2 ^ 53\<close> a double rounds; no age pattern is expected to capture that many digits.)\<close>

datatype number = NaN | Num int

definition is_digit :: "char \<Rightarrow> bool" where
  "is_digit c = digit_code (code c)"

definition decimal :: "string \<Rightarrow> int" where
  "decimal ds = foldl (\<lambda>v d. 10 * v + (int (code d) - 48)) 0 ds"

definition parseInt :: "string \<Rightarrow> number" where
  "parseInt s =
     (let ds = takeWhile is_digit (dropWhile is_space s)
      in if ds = [] then NaN else Num (decimal ds))"

text \<open>Truthiness of an optional string and of an optional number.\<close>

fun truthy :: "string option \<Rightarrow> bool" where
  "truthy None = False"
| "truthy (Some s) = (s \<noteq> [])"

fun truthy_num :: "number option \<Rightarrow> bool" where
  "truthy_num (Some (Num k)) = (k \<noteq> 0)"
| "truthy_num _ = False"

section \<open>The extraction engine\<close>

text \<open>The record \<^verbatim>\<open>ExtractedMedicalData\<close>: every field but the original text is optional.\<close>

record extractedMedicalData =
  patientName :: "string option"
  age :: "number option"
  sex :: "string option"
  date :: "string option"
  doctorName :: "string option"
  doctorQualification :: "string option"
  hospitalName :: "string option"
  documentType :: "string option"
  diagnosis :: "string option"
  medications :: "string list option"
  findings :: "string option"
  recommendations :: "string option"
  originalText :: string

subsection \<open>The patterns, in the order of the source\<close>

abbreviation dq :: char where "dq \<equiv> CHR 0x22"
abbreviation sq :: char where "sq \<equiv> CHR 0x27"

abbreviation ws :: regex where "ws \<equiv> Cls False [Space]"
abbreviation digit :: regex where "digit \<equiv> Cls False [Digit]"
abbreviation alpha :: regex where "alpha \<equiv> Cls False [Range CHR ''A'' CHR ''Z'', Range CHR ''a'' CHR ''z'']"
abbreviation alpha_ws :: regex where
  "alpha_ws \<equiv> Cls False [Range CHR ''A'' CHR ''Z'', Range CHR ''a'' CHR ''z'', Space]"
abbreviation alpha_ws_dot :: regex where
  "alpha_ws_dot \<equiv> Cls False [Range CHR ''A'' CHR ''Z'', Range CHR ''a'' CHR ''z'', Space, One CHR ''.'']"
abbreviation dash_ws :: regex where "dash_ws \<equiv> Cls False [One CHR ''-'', Space]"
abbreviation slash_ws :: regex where "slash_ws \<equiv> Cls False [One CHR ''/'', Space]"
abbreviation dash_slash :: regex where "dash_slash \<equiv> Cls False [One CHR ''-'', One CHR ''/'']"
abbreviation d09 :: regex where "d09 \<equiv> Cls False [Range CHR ''0'' CHR ''9'']"
abbreviation upper2 :: regex where "upper2 \<equiv> Rep 2 None (Cls False [Range CHR ''A'' CHR ''Z''])"
abbreviation not_colon :: regex where "not_colon \<equiv> Cls True [One CHR '':'']"
abbreviation not_dot :: regex where "not_dot \<equiv> Cls True [One CHR ''.'']"
abbreviation not_dq :: regex where "not_dq \<equiv> Cls True [One dq]"

definition male_female :: regex where
  "male_female = Alt (lit ''male'') (lit ''female'')"

definition namePatterns :: "(bool \<times> regex) list" where
  "namePatterns =
    [(True, seqs [Alt (lit ''Name'') (Alt (lit ''Patient'') (lit ''Patient Name'')),
                  Chr CHR '':'', Star ws, Grp 1 (Plus alpha_ws)]),
     (True, seqs [lit ''Name:'', Star ws, Chr dq, Grp 1 (Plus not_dq), Chr dq]),
     (True, seqs [lit ''Patient:'', Star ws, Grp 1 (Plus alpha_ws)])]"

definition agePatterns :: "(bool \<times> regex) list" where
  "agePatterns =
    [(True, seqs [Grp 1 (Plus digit), Star dash_ws, lit ''year'', Star dash_ws, lit ''old'']),
     (True, seqs [lit ''Age'', Star slash_ws, lit ''Sex:'', Star ws, Grp 1 (Plus digit)]),
     (True, seqs [lit ''Age:'', Star ws, Grp 1 (Plus digit)]),
     (True, seqs [Grp 1 (Plus digit), Star ws, lit ''year'', Opt (Chr CHR ''s''), Star ws, lit ''old''])]"

definition sexPatterns :: "(bool \<times> regex) list" where
  "sexPatterns =
    [(True, seqs [Grp 1 (Plus digit), Star dash_ws, lit ''year'', Star dash_ws, lit ''old'',
                  Plus ws, Grp 2 male_female]),
     (True, seqs [lit ''Age'', Star slash_ws, lit ''Sex:'', Star ws, Plus digit, Star slash_ws,
                  Grp 1 male_female]),
     (True, Grp 1 male_female)]"

definition datePatterns :: "(bool \<times> regex) list" where
  "datePatterns =
    [(True, seqs [lit ''Date:'', Star ws,
                  Grp 1 (seqs [Rep 1 (Some 2) d09, dash_slash, Rep 1 (Some 2) d09, dash_slash,
                               Rep 2 (Some 4) d09])]),
     (True, Grp 1 (seqs [Rep 1 (Some 2) d09, dash_slash, Rep 3 (Some 3) alpha, dash_slash,
                         Rep 2 (Some 4) d09])),
     (False, Grp 1 (seqs [Rep 1 (Some 2) digit, dash_slash, Rep 1 (Some 2) digit, dash_slash,
                          Rep 2 (Some 4) digit])),
     (True, seqs [lit ''Date:'', Star ws, Chr dq, Grp 1 (Plus not_dq), Chr dq])]"

text \<open>The optional tail \<^verbatim>\<open>(?:,\s*([A-Z]{2,}(?:,\s*[A-Z]{2,})*))?\<close> of the doctor patterns.\<close>

definition qualification :: regex where
  "qualification =
     Opt (seqs [Chr CHR '','', Star ws,
                Grp 2 (seqs [upper2, Star (seqs [Chr CHR '','', Star ws, upper2])])])"

definition doctorPatterns :: "(bool \<times> regex) list" where
  "doctorPatterns =
    [(True, seqs [lit ''Doctor'', Star (Cls False [One sq, Space]), Opt (Chr CHR ''s''), Star ws,
                  Cls False [One CHR ''N'', One CHR ''n''], lit ''ame'', Star not_colon,
                  Chr CHR '':'', Star ws, Grp 1 (Plus alpha_ws_dot), qualification]),
     (True, seqs [lit ''Dr'', Opt (Chr CHR ''.''), Star ws, Grp 1 (Plus alpha_ws_dot),
                  qualification]),
     (True, seqs [lit ''Physician:'', Star ws, Grp 1 (Plus alpha_ws_dot)])]"

definition hospitalPatterns :: "(bool \<times> regex) list" where
  "hospitalPatterns =
    [(True, seqs [lit ''Hospital'', Star slash_ws, lit ''Facility:'', Star ws, Grp 1 (Plus alpha_ws)]),
     (True, seqs [lit ''Clinic'', Star not_colon, Chr CHR '':'', Star ws, Grp 1 (Plus alpha_ws)]),
     (True, seqs [lit ''Hospital:'', Star ws, Grp 1 (Plus alpha_ws)]),
     (True, seqs [lit ''Medical Center:'', Star ws, Grp 1 (Plus alpha_ws)])]"

definition docTypePatterns :: "(bool \<times> regex) list" where
  "docTypePatterns =
    [(True, seqs [lit ''Document Type'', Star not_colon, Chr CHR '':'', Star ws,
                  Grp 1 (Plus (Cls False [Range CHR ''A'' CHR ''Z'', Range CHR ''a'' CHR ''z'', Space,
                                          One CHR ''('', One CHR '')'']))]),
     (True, Grp 1 (Alt (lit ''X-ray'') (Alt (lit ''CT'') (Alt (lit ''MRI'') (Alt (lit ''Ultrasound'')
              (Alt (lit ''Prescription'') (Alt (lit ''Lab Report'') (lit ''Medical Report'')))))))),
     (True, seqs [lit ''Modality'', Star not_colon, Chr CHR '':'', Star ws, Grp 1 (Plus alpha_ws)])]"

definition findingsStart :: regex where
  "findingsStart = seqs [lit ''**Key Findings**'', Opt (Chr CHR '':''), Star ws]"

definition findingsEnd :: regex where
  "findingsEnd =
     seqs [lit ''**'', Alt (lit ''Diagnostic Assessment'') (Alt (lit ''Patient-Friendly'') (lit ''Disclaimer''))]"

definition diagnosisStart :: regex where
  "diagnosisStart = seqs [lit ''**Diagnostic Assessment**'', Opt (Chr CHR '':''), Star ws]"

definition diagnosisEnd :: regex where
  "diagnosisEnd = seqs [lit ''**'', Alt (lit ''Patient-Friendly'') (lit ''Disclaimer'')]"

definition recommendationsStart :: regex where
  "recommendationsStart = seqs [lit ''**Patient-Friendly Explanation**'', Opt (Chr CHR '':''), Star ws]"

definition recommendationsEnd :: regex where
  "recommendationsEnd = seqs [Chr CHR ''*'', Opt (Chr CHR ''*''), lit ''Disclaimer'']"

text \<open>\<^verbatim>\<open>/^\d+\.\s*/\<close>, the leading enumerator of a section.\<close>

definition enumerator :: regex where
  "enumerator = seqs [Bol, Plus digit, Chr CHR ''.'', Star ws]"

definition medicationLabel :: regex where
  "medicationLabel =
     seqs [Alt (lit ''medication'') (Alt (lit ''medicine'') (lit ''drug'')), Opt (Chr CHR ''s''),
           Star not_colon, Chr CHR '':'']"

definition medicationPattern :: regex where
  "medicationPattern =
     seqs [Alt (lit ''medication'') (Alt (lit ''medicine'') (lit ''drug'')), Opt (Chr CHR ''s''),
           Star not_colon, Chr CHR '':'', Grp 1 (Plus not_dot)]"

text \<open>What follows the keyword in the medication pattern.\<close>

definition med_rest :: regex where
  "med_rest = Seq (Opt (Chr CHR ''s'')) (Seq (Star not_colon) (Seq (Chr CHR '':'')
                (Seq (Grp 1 (Plus not_dot)) Emp)))"

text \<open>\<^verbatim>\<open>/["\[\]]/g\<close>, the residual quotes and brackets.\<close>

definition quoteBracket :: regex where
  "quoteBracket = Cls False [One dq, One CHR ''['', One CHR '']'']"

subsection \<open>\<^verbatim>\<open>extractMedicalDataFromAnalysis\<close>\<close>

fun str :: "string option \<Rightarrow> string" where
  "str None = []"
| "str (Some s) = s"

text \<open>The helper \<^verbatim>\<open>extractBetween(text, start, end)\<close>; both patterns are recompiled with the
  flag \<^verbatim>\<open>i\<close>. \<open>None\<close> is \<^verbatim>\<open>null\<close>.\<close>

definition extractBetween :: "string \<Rightarrow> regex \<Rightarrow> regex option \<Rightarrow> string option" where
  "extractBetween text start end =
     (case js_match True start text of
        None \<Rightarrow> None
      | Some m \<Rightarrow>
          let startIndex = m_index m + length (m_text m);
              endIndex =
                (case end of
                   None \<Rightarrow> length text
                 | Some e \<Rightarrow>
                     (case js_match True e (drop startIndex text) of
                        None \<Rightarrow> length text
                      | Some endMatch \<Rightarrow> startIndex + m_index endMatch))
          in Some (trim (slice text startIndex endIndex)))"

text \<open>The loop \<^verbatim>\<open>for (const pattern of patterns) { const match = text.match(pattern);
  if (match && match[1]) { ...; break; } }\<close>: the first pattern whose match has a non-empty
  group 1 decides, and its match is returned.\<close>

fun first_hit :: "(bool \<times> regex) list \<Rightarrow> string \<Rightarrow> found option" where
  "first_hit [] text = None"
| "first_hit ((ci, r) # ps) text =
     (case js_match ci r text of
        None \<Rightarrow> first_hit ps text
      | Some m \<Rightarrow> if truthy (grp m 1) then Some m else first_hit ps text)"

text \<open>\<^verbatim>\<open>match[1].trim().replace(/["\[\]]/g, '')\<close>\<close>

definition clean :: "string \<Rightarrow> string" where
  "clean s = replace_all False quoteBracket (trim s)"

text \<open>The sex loop also asks that no value has been set: \<open>cur\<close> is \<^verbatim>\<open>extracted.sex\<close>.\<close>

fun sex_loop :: "(bool \<times> regex) list \<Rightarrow> string \<Rightarrow> string option \<Rightarrow> string option" where
  "sex_loop [] text cur = cur"
| "sex_loop ((ci, r) # ps) text cur =
     (case js_match ci r text of
        None \<Rightarrow> sex_loop ps text cur
      | Some m \<Rightarrow>
          if truthy (grp m 1) \<and> \<not> truthy cur then Some (toLowerCase (str (grp m 1)))
          else sex_loop ps text cur)"

text \<open>\<^verbatim>\<open>if (t) { field = t.replace(/^\d+\.\s*/, '').trim(); }\<close> for a section slice \<open>t\<close>.\<close>

definition section_field :: "string option \<Rightarrow> string option" where
  "section_field t = (if truthy t then Some (trim (replace_first False enumerator (str t))) else None)"

definition extract_medications :: "string \<Rightarrow> string list option" where
  "extract_medications text =
     (case js_match_all True medicationPattern text of
        [] \<Rightarrow> None
      | ms \<Rightarrow>
          Some (filter (\<lambda>med. length med > 0)
                  (map (\<lambda>m. trim (replace_first True medicationLabel (m_text m))) ms)))"

definition extractMedicalDataFromAnalysis :: "string \<Rightarrow> extractedMedicalData" where
  "extractMedicalDataFromAnalysis analysisText =
     (let doctor = first_hit doctorPatterns analysisText
      in \<lparr>patientName = map_option (\<lambda>m. clean (str (grp m 1))) (first_hit namePatterns analysisText),
          age = map_option (\<lambda>m. parseInt (str (grp m 1))) (first_hit agePatterns analysisText),
          sex = sex_loop sexPatterns analysisText None,
          date = map_option (\<lambda>m. clean (str (grp m 1))) (first_hit datePatterns analysisText),
          doctorName = map_option (\<lambda>m. clean (str (grp m 1))) doctor,
          doctorQualification =
            (case doctor of
               None \<Rightarrow> None
             | Some m \<Rightarrow> if truthy (grp m 2) then Some (trim (str (grp m 2))) else None),
          hospitalName = map_option (\<lambda>m. clean (str (grp m 1))) (first_hit hospitalPatterns analysisText),
          documentType = map_option (\<lambda>m. clean (str (grp m 1))) (first_hit docTypePatterns analysisText),
          diagnosis = section_field (extractBetween analysisText diagnosisStart (Some diagnosisEnd)),
          medications = extract_medications analysisText,
          findings = section_field (extractBetween analysisText findingsStart (Some findingsEnd)),
          recommendations =
            section_field (extractBetween analysisText recommendationsStart (Some recommendationsEnd)),
          originalText = analysisText\<rparr>)"

section \<open>The display formatter\<close>

fun join :: "string \<Rightarrow> string list \<Rightarrow> string" where
  "join sep [] = []"
| "join sep [x] = x"
| "join sep (x # y # ys) = x @ sep @ join sep (y # ys)"

function show_nat :: "nat \<Rightarrow> string" where
  "show_nat n =
     (if n < 10 then [''0123456789'' ! n] else show_nat (n div 10) @ [''0123456789'' ! (n mod 10)])"
  by pat_completeness auto
termination
  by (relation "measure id") auto

text \<open>A number inside a template literal. (An integer of 22 digits or more would print in
  exponent notation.)\<close>

fun show_num :: "number \<Rightarrow> string" where
  "show_num NaN = ''NaN''"
| "show_num (Num k) = (if k < 0 then CHR ''-'' # show_nat (nat (- k)) else show_nat (nat k))"

fun num :: "number option \<Rightarrow> number" where
  "num None = NaN"
| "num (Some v) = v"

definition newline :: char where
  "newline = CHR 0x0A"

definition formatExtractedDataForDisplay :: "extractedMedicalData \<Rightarrow> string" where
  "formatExtractedDataForDisplay data =
     (let patient =
            (if truthy (patientName data) \<or> truthy_num (age data) \<or> truthy (sex data)
             then [''**Patient:** '' @ join '', ''
                     ((if truthy (patientName data) then [''Name: '' @ str (patientName data)] else [])
                      @ (if truthy_num (age data) then [''Age: '' @ show_num (num (age data))] else [])
                      @ (if truthy (sex data) then [''Sex: '' @ str (sex data)] else []))]
             else []);
          doc =
            (if truthy (date data) \<or> truthy (documentType data)
             then [''**Document:** '' @ join '', ''
                     ((if truthy (documentType data) then [''Type: '' @ str (documentType data)] else [])
                      @ (if truthy (date data) then [''Date: '' @ str (date data)] else []))]
             else []);
          provider =
            (if truthy (doctorName data) \<or> truthy (hospitalName data)
             then [''**Provider:** '' @ join '', ''
                     ((if truthy (doctorName data)
                       then [''Doctor: '' @
                               (if truthy (doctorQualification data)
                                then str (doctorName data) @ '', '' @ str (doctorQualification data)
                                else str (doctorName data))]
                       else [])
                      @ (if truthy (hospitalName data) then [''Hospital: '' @ str (hospitalName data)] else []))]
             else []);
          fnd = (if truthy (findings data) then [''**Findings:** '' @ str (findings data)] else []);
          dia = (if truthy (diagnosis data) then [''**Assessment:** '' @ str (diagnosis data)] else []);
          med =
            (case medications data of
               None \<Rightarrow> []
             | Some ms \<Rightarrow> if length ms > 0 then [''**Medications:** '' @ join '', '' ms] else []);
          rec =
            (if truthy (recommendations data) then [''**Summary:** '' @ str (recommendations data)] else [])
      in join [newline, newline] (patient @ doc @ provider @ fnd @ dia @ med @ rec))"

section \<open>The document lifecycle\<close>

text \<open>
  The page component (\<^verbatim>\<open>src/pages/Index.tsx\<close>) keeps the documents in a state variable and
  changes it only through \<^verbatim>\<open>setDocuments(prev => ...)\<close>. Each such call is an \<open>update\<close>;
  the handlers and the timer callbacks are the events that issue them. The values a handler
  draws from its surroundings (the clock, \<^verbatim>\<open>Math.random\<close>, the outcome of the remote call)
  are carried by the event.
\<close>

datatype status = Queued | Uploading | Extracting | Done | Error

record documentMetadata =
  md_doctorName :: "string option"
  md_date :: "string option"
  md_documentType :: "string option"
  recordId :: "string option"
  extractedText :: "string option"
  fullAnalysis :: "string option"
  generatedReport :: "string option"
  reportGeneratedAt :: "string option"

record jsfile =
  f_name :: string
  f_type :: string
  f_size :: nat

record document =
  doc_id :: string
  patientId :: string
  filename :: string
  fileType :: string
  fileSize :: nat
  status :: status
  uploadProgress :: "real option"
  presignedKey :: "string option"
  metadata :: "documentMetadata option"
  extractedData :: "extractedMedicalData option"
  doc_file :: "jsfile option"
  createdAt :: nat

datatype update =
    AddDocument document
  | SetUploading string
  | SetProgress string real
  | SetExtracting string
  | SetDone string documentMetadata
  | SetError string
  | RemoveDocument string
  | SaveMetadata string documentMetadata

fun apply_update :: "update \<Rightarrow> document list \<Rightarrow> document list" where
  "apply_update (AddDocument newDoc) prev = prev @ [newDoc]"
| "apply_update (SetUploading i) prev =
     map (\<lambda>doc. if doc_id doc = i then doc\<lparr>status := Uploading, uploadProgress := Some 0\<rparr> else doc) prev"
| "apply_update (SetProgress i progress) prev =
     map (\<lambda>doc. if doc_id doc = i then doc\<lparr>uploadProgress := Some (min progress 100)\<rparr> else doc) prev"
| "apply_update (SetExtracting i) prev =
     map (\<lambda>doc. if doc_id doc = i then doc\<lparr>status := Extracting, uploadProgress := Some 100\<rparr> else doc) prev"
| "apply_update (SetDone i md) prev =
     map (\<lambda>doc. if doc_id doc = i then doc\<lparr>status := Done, metadata := Some md\<rparr> else doc) prev"
| "apply_update (SetError i) prev =
     map (\<lambda>doc. if doc_id doc = i then doc\<lparr>status := Error\<rparr> else doc) prev"
| "apply_update (RemoveDocument i) prev = filter (\<lambda>doc. doc_id doc \<noteq> i) prev"
| "apply_update (SaveMetadata i md) prev =
     map (\<lambda>doc. if doc_id doc = i then doc\<lparr>metadata := Some md\<rparr> else doc) prev"

definition apply_updates :: "update list \<Rightarrow> document list \<Rightarrow> document list" where
  "apply_updates us prev = foldl (\<lambda>ds u. apply_update u ds) prev us"




text \<open>What a handler reads from its surroundings: the id it builds from the clock and a random
  number, the clock, today's date as \<^verbatim>\<open>toISOString\<close> prints it, and the random suffix of a
  record id.\<close>

record ambient =
  new_id :: string
  now :: nat
  today :: string
  rnd :: string

text \<open>The response of the analysis service (\<^verbatim>\<open>ImageAnalysisResponse\<close>), and how the call ends:
  the promise rejects with an error carrying a message, or resolves.\<close>

record response =
  analysis :: string
  success :: bool
  r_error :: "string option"

datatype outcome = Rejected string | Resolved response

text \<open>The closure of one image upload: the new document, the counter \<^verbatim>\<open>progress\<close>, whether the
  interval is still set, whether the timeout has yet to fire and whether the analysis call is
  in flight.\<close>

record upload =
  u_doc :: document
  progress :: real
  ticking :: bool
  timeout_pending :: bool
  analysing :: bool

record app =
  abhaId :: string
  backendConnected :: bool
  app_patientId :: "string option"
  documents :: "document list"
  uploads :: "string \<Rightarrow> upload option"
  selectedDocument :: "document option"
  isMetadataDrawerOpen :: bool

definition isImage :: "jsfile \<Rightarrow> bool" where
  "isImage f = (take 6 (f_type f) = ''image/'')"

definition newDoc :: "app \<Rightarrow> jsfile \<Rightarrow> ambient \<Rightarrow> document" where
  "newDoc w f a =
     \<lparr>doc_id = new_id a,
      patientId = (if truthy (app_patientId w) then str (app_patientId w) else ''patient_'' @ abhaId w),
      filename = f_name f, fileType = f_type f, fileSize = f_size f, status = Queued,
      uploadProgress = None, presignedKey = None, metadata = None, extractedData = None,
      doc_file = Some f, createdAt = now a\<rparr>"

definition basicMetadata :: "ambient \<Rightarrow> documentMetadata" where
  "basicMetadata a =
     \<lparr>md_doctorName = Some ''No Analysis'', md_date = Some (today a),
      md_documentType = Some ''Document (Non-image)'', recordId = Some (''REF-'' @ rnd a),
      extractedText = Some ''Non-image file uploaded. No AI analysis performed.'',
      fullAnalysis = None, generatedReport = None, reportGeneratedAt = None\<rparr>"

text \<open>\<^verbatim>\<open>analysisError?.message || analysisError\<close> inside a template literal: an error with an
  empty message prints as \<^verbatim>\<open>Error\<close>.\<close>

definition error_text :: "string \<Rightarrow> string" where
  "error_text msg = (if msg \<noteq> [] then msg else ''Error'')"

definition errorMetadata :: "ambient \<Rightarrow> string \<Rightarrow> documentMetadata" where
  "errorMetadata a msg =
     \<lparr>md_doctorName = Some ''Analysis Failed'', md_date = Some (today a),
      md_documentType = Some ''Medical Document'', recordId = Some (''ERROR-'' @ rnd a),
      extractedText =
        Some (''Python backend analysis failed: '' @ error_text msg @ ''. Manual review required.''),
      fullAnalysis = None, generatedReport = None, reportGeneratedAt = None\<rparr>"

definition aiMetadata :: "ambient \<Rightarrow> string \<Rightarrow> documentMetadata" where
  "aiMetadata a text =
     (let extracted = extractMedicalDataFromAnalysis text
      in \<lparr>md_doctorName =
            Some (if truthy (doctorName extracted) then str (doctorName extracted) else ''AI Analysis''),
          md_date = Some (if truthy (date extracted) then str (date extracted) else today a),
          md_documentType =
            Some (if truthy (documentType extracted) then str (documentType extracted)
                  else ''Medical Document (Python AI)''),
          recordId = Some (''PY-'' @ rnd a),
          extractedText = Some (formatExtractedDataForDisplay extracted),
          fullAnalysis = Some text, generatedReport = None, reportGeneratedAt = None\<rparr>)"

text \<open>The message of the error that reaches the \<^verbatim>\<open>catch\<close> block of the analysis, if any:
  the rejection itself, or the error thrown on \<^verbatim>\<open>success = false\<close>.\<close>

fun failure :: "outcome \<Rightarrow> string option" where
  "failure (Rejected msg) = Some msg"
| "failure (Resolved r) =
     (if success r then None
      else Some (if truthy (r_error r) then str (r_error r) else ''Python backend analysis failed''))"

text \<open>The body of the loop of \<^verbatim>\<open>handleFilesAdded\<close> for one file: the updates it issues, and the
  closure it leaves behind when the file is an image. (Nothing in the \<^verbatim>\<open>try\<close> block around
  the image branch throws, so its \<^verbatim>\<open>catch\<close>, the one place that sets the status
  \<^verbatim>\<open>error\<close>, is not entered.)\<close>

definition handleFile :: "app \<Rightarrow> jsfile \<times> ambient \<Rightarrow> update list \<times> (string \<times> upload) list" where
  "handleFile w fa =
     (let f = fst fa; a = snd fa
      in if isImage f
         then ([AddDocument (newDoc w f a), SetUploading (new_id a)],
               [(new_id a, \<lparr>u_doc = newDoc w f a, progress = 0, ticking = True, timeout_pending = True,
                            analysing = False\<rparr>)])
         else ([AddDocument (newDoc w f a), SetDone (new_id a) (basicMetadata a)], []))"

definition handleFilesAdded :: "app \<Rightarrow> (jsfile \<times> ambient) list \<Rightarrow> update list \<times> (string \<times> upload) list" where
  "handleFilesAdded w files =
     (if abhaId w = [] then ([], [])
      else if \<not> backendConnected w then ([], [])
      else (concat (map (\<lambda>fa. fst (handleFile w fa)) files),
            concat (map (\<lambda>fa. snd (handleFile w fa)) files)))"

datatype event =
    FilesAdded "(jsfile \<times> ambient) list"
  | Tick string real
  | UploadTimeout string
  | AnalysisSettled string outcome ambient
  | Remove string
  | MetadataSave string documentMetadata

text \<open>What an event issues: the updates, in order.\<close>

fun issued :: "event \<Rightarrow> app \<Rightarrow> update list" where
  "issued (FilesAdded files) w = fst (handleFilesAdded w files)"
| "issued (Tick i r) w =
     (case uploads w i of
        None \<Rightarrow> []
      | Some u \<Rightarrow>
          if ticking u \<and> \<not> (progress u + r * 10 \<ge> 100)
          then [SetProgress i (progress u + r * 10)] else [])"
| "issued (UploadTimeout i) w =
     (case uploads w i of
        None \<Rightarrow> []
      | Some u \<Rightarrow> if timeout_pending u then [SetExtracting i] else [])"
| "issued (AnalysisSettled i out a) w =
     (case uploads w i of
        None \<Rightarrow> []
      | Some u \<Rightarrow>
          if analysing u
          then (case failure out of
                  Some msg \<Rightarrow> [SetDone i (errorMetadata a msg)]
                | None \<Rightarrow> (case out of
                             Resolved r \<Rightarrow> [SetDone i (aiMetadata a (analysis r))]
                           | Rejected msg \<Rightarrow> []))
          else [])"
| "issued (Remove i) w = [RemoveDocument i]"
| "issued (MetadataSave i md) w = [SaveMetadata i md]"

text \<open>What an event does to the closures: a tick adds \<^verbatim>\<open>Math.random() * 10\<close> to the counter
  and clears the interval once the counter reaches 100; the timeout starts the analysis; the
  settled promise ends it.\<close>

fun closures :: "event \<Rightarrow> app \<Rightarrow> (string \<Rightarrow> upload option)" where
  "closures (FilesAdded files) w =
     foldl (\<lambda>m iu. m(fst iu \<mapsto> snd iu)) (uploads w) (snd (handleFilesAdded w files))"
| "closures (Tick i r) w =
     (case uploads w i of
        None \<Rightarrow> uploads w
      | Some u \<Rightarrow>
          if ticking u
          then (uploads w)(i \<mapsto> u\<lparr>progress := progress u + r * 10,
                                    ticking := \<not> (progress u + r * 10 \<ge> 100)\<rparr>)
          else uploads w)"
| "closures (UploadTimeout i) w =
     (case uploads w i of
        None \<Rightarrow> uploads w
      | Some u \<Rightarrow>
          if timeout_pending u then (uploads w)(i \<mapsto> u\<lparr>timeout_pending := False, analysing := True\<rparr>)
          else uploads w)"
| "closures (AnalysisSettled i out a) w =
     (case uploads w i of
        None \<Rightarrow> uploads w
      | Some u \<Rightarrow> if analysing u then (uploads w)(i \<mapsto> u\<lparr>analysing := False\<rparr>) else uploads w)"
| "closures ev w = uploads w"

text \<open>After a successful analysis the handler opens the metadata drawer on a copy of the new
  document that carries the extracted data.\<close>

definition updatedDoc :: "upload \<Rightarrow> ambient \<Rightarrow> string \<Rightarrow> document" where
  "updatedDoc u a text =
     (u_doc u)\<lparr>status := Done, metadata := Some (aiMetadata a text),
               extractedData := Some (extractMedicalDataFromAnalysis text)\<rparr>"

fun selected :: "event \<Rightarrow> app \<Rightarrow> document option \<times> bool" where
  "selected (AnalysisSettled i out a) w =
     (case uploads w i of
        None \<Rightarrow> (selectedDocument w, isMetadataDrawerOpen w)
      | Some u \<Rightarrow>
          (case out of
             Resolved r \<Rightarrow>
               if analysing u \<and> success r then (Some (updatedDoc u a (analysis r)), True)
               else (selectedDocument w, isMetadataDrawerOpen w)
           | Rejected msg \<Rightarrow> (selectedDocument w, isMetadataDrawerOpen w)))"
| "selected ev w = (selectedDocument w, isMetadataDrawerOpen w)"

definition step :: "event \<Rightarrow> app \<Rightarrow> app" where
  "step ev w =
     w\<lparr>documents := apply_updates (issued ev w) (documents w), uploads := closures ev w,
       selectedDocument := fst (selected ev w), isMetadataDrawerOpen := snd (selected ev w)\<rparr>"

definition run :: "event list \<Rightarrow> app \<Rightarrow> app" where
  "run evs w = foldl (\<lambda>v ev. step ev v) w evs"

definition app0 :: app where
  "app0 = \<lparr>abhaId = ''12-3456'', backendConnected = True, app_patientId = None, documents = [],
           uploads = (\<lambda>i. None), selectedDocument = None, isMetadataDrawerOpen = False\<rparr>"

section \<open>The voice note lifecycle\<close>

datatype vstatus = Recording | VUploading | Processing | VDone | VError

record voiceNote =
  v_id :: string
  v_patientId :: string
  duration :: real
  v_status :: vstatus
  v_uploadProgress :: "real option"
  languageHint :: "string option"
  transcript :: "string option"
  v_createdAt :: nat

definition newVoiceNote :: "string \<Rightarrow> real \<Rightarrow> ambient \<Rightarrow> voiceNote" where
  "newVoiceNote pid dur a =
     \<lparr>v_id = new_id a, v_patientId = pid, duration = dur, v_status = VUploading,
      v_uploadProgress = Some 0, languageHint = Some ''en'', transcript = None, v_createdAt = now a\<rparr>"

text \<open>The interval callback of \<^verbatim>\<open>handleVoiceNote\<close>, as an update of the voice notes: \<open>p\<close> is
  the counter after \<^verbatim>\<open>progress += Math.random() * 20\<close>.\<close>

definition voiceTick :: "string \<Rightarrow> real \<Rightarrow> voiceNote list \<Rightarrow> voiceNote list" where
  "voiceTick i p prev =
     (if p \<ge> 100
      then map (\<lambda>note. if v_id note = i
                        then note\<lparr>v_status := VDone, v_uploadProgress := Some 100,
                                  transcript := Some ''This is a sample transcript of the voice note. The actual transcription would be processed by AI.''\<rparr>
                        else note) prev
      else map (\<lambda>note. if v_id note = i then note\<lparr>v_uploadProgress := Some (min p 100)\<rparr> else note) prev)"

section \<open>The section slice in the words of the specification\<close>

text \<open>
  The specification describes the section slice without regular expressions: find the
  section header case-insensitively, then the earliest later terminator of a fixed set, and
  take what lies between, or everything to the end when no terminator follows. The
  definitions below say that with list functions only; the header is followed by an optional
  colon and white space, which belong to the anchor.
\<close>

definition anchor_at :: "string \<Rightarrow> string \<Rightarrow> bool" where
  "anchor_at p t = (length p \<le> length t \<and> map ucode p = map ucode (take (length p) t))"

fun first_pos :: "(string \<Rightarrow> bool) \<Rightarrow> string \<Rightarrow> nat option" where
  "first_pos P [] = (if P [] then Some 0 else None)"
| "first_pos P (x # xs) = (if P (x # xs) then Some 0 else map_option Suc (first_pos P xs))"

definition skip_colon_ws :: "string \<Rightarrow> string" where
  "skip_colon_ws t =
     dropWhile is_space (case t of [] \<Rightarrow> [] | x # xs \<Rightarrow> if x = CHR '':'' then xs else x # xs)"

definition spec_section_slice :: "string \<Rightarrow> string list \<Rightarrow> string \<Rightarrow> string option" where
  "spec_section_slice header terminators text =
     (case first_pos (anchor_at header) text of
        None \<Rightarrow> None
      | Some i \<Rightarrow>
          let body = skip_colon_ws (drop (i + length header) text)
          in Some (case first_pos (\<lambda>t. list_ex (\<lambda>p. anchor_at p t) terminators) body of
                     None \<Rightarrow> body
                   | Some j \<Rightarrow> take j body))"

definition findingsTerminators :: "string list" where
  "findingsTerminators = [''**Diagnostic Assessment'', ''**Patient-Friendly'', ''**Disclaimer'']"

section \<open>Concrete inputs\<close>

text \<open>An image file, a file that is not an image, and the surroundings of two calls.\<close>

definition scan_png :: jsfile where
  "scan_png = \<lparr>f_name = ''scan.png'', f_type = ''image/png'', f_size = 2048\<rparr>"


definition amb1 :: ambient where
  "amb1 = \<lparr>new_id = ''doc_1'', now = 1, today = ''2024-03-15'', rnd = ''AB12CD34''\<rparr>"

definition amb2 :: ambient where
  "amb2 = \<lparr>new_id = ''doc_2'', now = 2, today = ''2024-03-15'', rnd = ''EF56GH78''\<rparr>"

text \<open>The closure of the upload of \<open>scan_png\<close> before its timeout has fired, and while its
  analysis is in flight.\<close>

definition pending_upload :: upload where
  "pending_upload =
     \<lparr>u_doc = newDoc app0 scan_png amb1, progress = 0, ticking = True, timeout_pending = True,
      analysing = False\<rparr>"

definition analysing_upload :: upload where
  "analysing_upload = pending_upload\<lparr>timeout_pending := False, analysing := True\<rparr>"

definition offline :: outcome where
  "offline = Rejected ''Failed to analyze image: Failed to fetch''"

definition refused :: response where
  "refused = \<lparr>analysis = [], success = False, r_error = Some ''model unavailable''\<rparr>"

definition empty_record :: "string \<Rightarrow> extractedMedicalData" where
  "empty_record text =
     \<lparr>patientName = None, age = None, sex = None, date = None, doctorName = None,
      doctorQualification = None, hospitalName = None, documentType = None, diagnosis = None,
      medications = None, findings = None, recommendations = None, originalText = text\<rparr>"

section \<open>Properties of the matcher\<close>

text \<open>The equation of the quantifier calls itself, so it is applied by hand.\<close>

declare rmatch.simps(8) [simp del]

text \<open>The rest after a match is never longer than the input: the test in the quantifier
  rejects nothing but iterations that consumed no input.\<close>

lemma rmatch_length:
  "(s', c') \<in> set (rmatch ci n r s c) \<Longrightarrow> length s' \<le> length s"
proof (induction ci n r s c arbitrary: s' c' rule: rmatch.induct)
  case (1 ci n s c)
  then show ?case by simp
next
  case (2 ci n a s c)
  then show ?case by (auto split: list.splits if_splits)
next
  case (3 ci n neg items s c)
  then show ?case by (auto split: list.splits if_splits)
next
  case (4 ci n a b s c)
  from "4.prems" obtain s1 c1 where a: "(s1, c1) \<in> set (rmatch ci n a s c)"
    and b: "(s', c') \<in> set (rmatch ci n b s1 c1)" by auto
  from "4.IH"(1) [OF a] "4.IH"(2) [OF a refl b] show ?case by simp
next
  case (5 ci n a b s c)
  then show ?case by auto
next
  case (6 ci n k r s c)
  then show ?case by auto
next
  case (7 ci n s c)
  then show ?case by (auto split: if_splits)
next
  case (8 ci n mn mx r s c)
  show ?case
  proof (cases "mx = Some 0")
    case True
    with "8.prems" show ?thesis by (simp add: rmatch.simps(8))
  next
    case False
    from "8.prems" False consider (here) "s' = s" |
      (again) s1 c1 where "(s1, c1) \<in> set (rmatch ci n r s (clear r c))"
        "length s1 < length s \<or> (mn \<noteq> 0 \<and> length s1 = length s)"
        "(s', c') \<in> set (rmatch ci n (Rep (mn - 1) (dec mx) r) s1 c1)"
      by (subst (asm) rmatch.simps(8)) (auto split: if_splits simp: Let_def)
    then show ?thesis
    proof cases
      case here
      then show ?thesis by simp
    next
      case again
      from "8.IH"(2) [OF False again(1) refl again(2) again(3)] again(2) show ?thesis by auto
    qed
  qed
qed

lemma rmatch_lit:
  "rmatch True n (lit p) s c = (if anchor_at p s then [(drop (length p) s, c)] else [])"
proof (induction p arbitrary: s)
  case Nil
  then show ?case by (simp add: anchor_at_def)
next
  case (Cons a p)
  show ?case
  proof (cases s)
    case Nil
    then show ?thesis by (simp add: anchor_at_def)
  next
    case (Cons x xs)
    with Cons.IH [of xs] show ?thesis by (auto simp: anchor_at_def chr_eq_def)
  qed
qed

lemma clear_no_groups: "groups r = [] \<Longrightarrow> clear r c = c"
  by (simp add: clear_def)

text \<open>All the ways a greedy star over a class matches: the longest run first.\<close>

lemma rmatch_star_cls:
  "rmatch ci n (Star (Cls neg items)) s c =
     map (\<lambda>k. (drop k s, c)) (rev [0..<Suc (length (takeWhile (\<lambda>x. cls_has ci items x \<noteq> neg) s))])"
proof (induction s)
  case Nil
  then show ?case by (simp add: rmatch.simps(8) dec_def)
next
  case (Cons x xs)
  show ?case
  proof (cases "cls_has ci items x \<noteq> neg")
    case False
    then show ?thesis by (simp add: rmatch.simps(8) dec_def clear_no_groups)
  next
    case True
    let ?m = "length (takeWhile (\<lambda>x. cls_has ci items x \<noteq> neg) xs)"
    have upt: "rev [0..<Suc (Suc ?m)] = map Suc (rev [0..<Suc ?m]) @ [0]"
      by (metis map_Suc_upt rev.simps(2) rev_map upt_conv_Cons zero_less_Suc)
    from True have "rmatch ci n (Star (Cls neg items)) (x # xs) c
        = rmatch ci n (Star (Cls neg items)) xs c @ [(x # xs, c)]"
      by (simp add: rmatch.simps(8) [of ci n 0 None "Cls neg items" "x # xs"] dec_def clear_no_groups)
    also have "\<dots> = map (\<lambda>k. (drop k (x # xs), c)) (rev [0..<Suc (Suc ?m)])"
      unfolding Cons.IH upt by (simp add: comp_def)
    finally show ?thesis using True by simp
  qed
qed

lemma rmatch_plus_cls:
  "rmatch ci n (Plus (Cls neg items)) s c =
     (case s of [] \<Rightarrow> []
      | x # xs \<Rightarrow> if cls_has ci items x \<noteq> neg then rmatch ci n (Star (Cls neg items)) xs c else [])"
  by (cases s) (simp_all add: rmatch.simps(8) [of ci n "Suc 0"] dec_def clear_no_groups)

lemma rmatch_opt_chr:
  "rmatch ci n (Opt (Chr a)) s c =
     (case s of [] \<Rightarrow> [(s, c)]
      | x # xs \<Rightarrow> if chr_eq ci a x then [(xs, c), (s, c)] else [(s, c)])"
  by (cases s) (simp_all add: rmatch.simps(8) [of ci n 0 "Some (Suc 0)"] rmatch.simps(8) [of ci n 0 "Some 0"] dec_def clear_no_groups)

lemma code_eq_iff: "code x = code y \<longleftrightarrow> x = y"
  by (simp add: code_def)

lemma code_colon: "code CHR '':'' = 58"
  by (simp add: code_def)

lemma chr_eq_colon: "chr_eq True CHR '':'' x \<longleftrightarrow> x = CHR '':''"
proof -
  have "chr_eq True CHR '':'' x \<longleftrightarrow> code x = 58"
    unfolding chr_eq_def ucode_def code_colon by auto
  then show ?thesis using code_eq_iff [of x "CHR '':''"] by (simp only: code_colon)
qed


lemma cls_ws: "(cls_has True [Space] x \<noteq> False) = is_space x"
proof -
  have "space_code (ucode x) \<Longrightarrow> space_code (code x)"
    unfolding space_code_def ucode_def by (cases "97 \<le> code x \<and> code x \<le> 122") auto
  moreover have "space_code (lcode x) \<Longrightarrow> space_code (code x)"
    unfolding space_code_def lcode_def by (cases "65 \<le> code x \<and> code x \<le> 90") auto
  ultimately show ?thesis by (auto simp: cls_has_def is_space_def)
qed

lemma skip_colon_ws_suffix: "\<exists>zs. u = zs @ skip_colon_ws u"
proof (cases u)
  case Nil
  then show ?thesis by (simp add: skip_colon_ws_def)
next
  case (Cons x xs)
  show ?thesis
  proof (cases "x = CHR '':''")
    case True
    have "u = (x # takeWhile is_space xs) @ dropWhile is_space xs"
      using Cons by simp
    moreover have "skip_colon_ws u = dropWhile is_space xs"
      using Cons True by (simp add: skip_colon_ws_def)
    ultimately show ?thesis by metis
  next
    case False
    have "u = takeWhile is_space u @ dropWhile is_space u" by simp
    moreover have "skip_colon_ws u = dropWhile is_space u"
      using Cons False by (simp add: skip_colon_ws_def)
    ultimately show ?thesis by metis
  qed
qed

lemma rmatch_Seq_lit:
  "rmatch True n (Seq (lit p) r) s c = (if anchor_at p s then rmatch True n r (drop (length p) s) c else [])"
  by (simp add: rmatch_lit del: lit.simps)

lemma rmatch_Seq_opt_colon:
  "rmatch True n (Seq (Opt (Chr CHR '':'')) r) s c =
     (case s of [] \<Rightarrow> rmatch True n r [] c
      | x # xs \<Rightarrow> if x = CHR '':'' then rmatch True n r xs c @ rmatch True n r (x # xs) c
                  else rmatch True n r (x # xs) c)"
  by (cases s) (simp_all add: rmatch_opt_chr chr_eq_colon)

lemma cls_ws_fun: "cls_has True [Space] = is_space"
  using cls_ws by auto

lemma star_ws_hd:
  "\<exists>ys. rmatch True n (Seq (Star ws) Emp) v c = (dropWhile is_space v, c) # ys"
proof -
  let ?m = "length (takeWhile is_space v)"
  have "rmatch True n (Seq (Star ws) Emp) v c = map (\<lambda>k. (drop k v, c)) (rev [0..<Suc ?m])"
    by (simp add: rmatch_star_cls cls_ws_fun comp_def split_def)
  also have "\<dots> = (drop ?m v, c) # map (\<lambda>k. (drop k v, c)) (rev [0..<?m])" by simp
  finally show ?thesis by (simp add: dropWhile_eq_drop)
qed

lemma findingsStart_hd:
  "rmatch True n findingsStart t [] =
     (if anchor_at ''**Key Findings**'' t
      then (skip_colon_ws (drop 16 t), []) # tl (rmatch True n findingsStart t [])
      else [])"
proof -
  let ?rest = "Seq (Star ws) Emp"
  let ?u = "drop 16 t"
  have len: "length ''**Key Findings**'' = 16" by simp
  have a: "rmatch True n findingsStart t [] =
      (if anchor_at ''**Key Findings**'' t
       then rmatch True n (Seq (Opt (Chr CHR '':'')) ?rest) ?u [] else [])"
    unfolding findingsStart_def seqs.simps rmatch_Seq_lit len ..
  have b: "\<exists>ys. rmatch True n (Seq (Opt (Chr CHR '':'')) ?rest) ?u [] = (skip_colon_ws ?u, []) # ys"
  proof (cases ?u)
    case Nil
    with star_ws_hd [of n "[]" "[]"] show ?thesis
      by (simp add: rmatch_Seq_opt_colon skip_colon_ws_def del: rmatch.simps)
  next
    case (Cons x xs)
    show ?thesis
    proof (cases "x = CHR '':''")
      case True
      from star_ws_hd [of n xs "[]"] obtain ys
        where "rmatch True n ?rest xs [] = (dropWhile is_space xs, []) # ys" by blast
      with Cons True show ?thesis
        by (simp add: rmatch_Seq_opt_colon skip_colon_ws_def del: rmatch.simps)
    next
      case False
      from star_ws_hd [of n "x # xs" "[]"] obtain ys
        where "rmatch True n ?rest (x # xs) [] = (dropWhile is_space (x # xs), []) # ys" by blast
      with Cons False show ?thesis
        by (simp add: rmatch_Seq_opt_colon skip_colon_ws_def del: rmatch.simps)
    qed
  qed
  show ?thesis
  proof (cases "anchor_at ''**Key Findings**'' t")
    case True
    from b obtain ys where "rmatch True n (Seq (Opt (Chr CHR '':'')) ?rest) ?u [] = (skip_colon_ws ?u, []) # ys"
      by blast
    with a True show ?thesis by (simp only: if_True list.sel)
  next
    case False
    with a show ?thesis by (simp only: if_False)
  qed
qed

lemma first_pos_cong: "(\<And>t. P t = Q t) \<Longrightarrow> first_pos P s = first_pos Q s"
  by (induction s) auto

lemma first_pos_Some: "first_pos P s = Some k \<Longrightarrow> P (drop k s) \<and> k \<le> length s"
proof (induction s arbitrary: k)
  case Nil
  then show ?case by (auto split: if_splits)
next
  case (Cons x xs)
  then show ?case by (cases "P (x # xs)") auto
qed

lemma scan_first_pos:
  "scan ci n r i s =
     (case first_pos (\<lambda>t. rmatch ci n r t [] \<noteq> []) s of
        None \<Rightarrow> None
      | Some k \<Rightarrow>
          Some \<lparr>m_index = i + k,
                m_text = take (length (drop k s) - length (fst (hd (rmatch ci n r (drop k s) []))))
                           (drop k s),
                m_caps = snd (hd (rmatch ci n r (drop k s) []))\<rparr>)"
proof (induction s arbitrary: i)
  case Nil
  then show ?case by (cases "rmatch ci n r [] []") auto
next
  case (Cons x xs)
  show ?case
  proof (cases "rmatch ci n r (x # xs) []")
    case Nil
    then show ?thesis using Cons.IH [of "Suc i"] by (auto split: option.splits)
  next
    case (Cons p ps)
    then show ?thesis by (cases p) simp
  qed
qed

lemma rmatch_Seq_Emp: "rmatch ci n (Seq r Emp) s c = rmatch ci n r s c"
proof -
  have "concat (map (\<lambda>p. [(fst p, snd p)]) xs) = xs" for xs :: "(string \<times> caps) list"
    by (induction xs) auto
  then show ?thesis by (simp add: case_prod_unfold)
qed

lemma anchor_at_append:
  "anchor_at (p @ q) t \<longleftrightarrow> anchor_at p t \<and> anchor_at q (drop (length p) t)"
proof (induction p arbitrary: t)
  case Nil
  then show ?case by (simp add: anchor_at_def)
next
  case (Cons a p)
  show ?case
  proof (cases t)
    case Nil
    then show ?thesis by (simp add: anchor_at_def)
  next
    case (Cons x xs)
    with Cons.IH [of xs] show ?thesis by (auto simp: anchor_at_def)
  qed
qed

lemma findingsEnd_iff:
  "rmatch True n findingsEnd t [] \<noteq> [] \<longleftrightarrow> list_ex (\<lambda>p. anchor_at p t) findingsTerminators"
proof -
  have split: "''**Diagnostic Assessment'' = ''**'' @ ''Diagnostic Assessment''"
    "''**Patient-Friendly'' = ''**'' @ ''Patient-Friendly''"
    "''**Disclaimer'' = ''**'' @ ''Disclaimer''" by simp_all
  have len: "length ''**'' = 2" by simp
  show ?thesis
    unfolding findingsEnd_def findingsTerminators_def seqs.simps rmatch_Seq_lit rmatch_Seq_Emp
      rmatch.simps(5) rmatch_lit split anchor_at_append len list_ex_Cons_iff list_ex_Nil_iff
    by auto
qed

lemma findingsStart_iff: "rmatch True n findingsStart t [] \<noteq> [] \<longleftrightarrow> anchor_at ''**Key Findings**'' t"
  by (subst findingsStart_hd) simp

lemma js_match_findingsStart:
  "js_match True findingsStart text =
     (case first_pos (anchor_at ''**Key Findings**'') text of
        None \<Rightarrow> None
      | Some i \<Rightarrow>
          Some \<lparr>m_index = i,
                m_text = take (length (drop i text) - length (skip_colon_ws (drop (i + 16) text)))
                           (drop i text),
                m_caps = []\<rparr>)"
proof -
  have fp: "first_pos (\<lambda>t. rmatch True (length text) findingsStart t [] \<noteq> []) text
      = first_pos (anchor_at ''**Key Findings**'') text"
    by (rule first_pos_cong) (rule findingsStart_iff)
  show ?thesis
  proof (cases "first_pos (anchor_at ''**Key Findings**'') text")
    case None
    with fp show ?thesis by (simp add: js_match_def scan_first_pos)
  next
    case (Some i)
    from first_pos_Some [OF Some] have at: "anchor_at ''**Key Findings**'' (drop i text)" by simp
    have "hd (rmatch True (length text) findingsStart (drop i text) [])
        = (skip_colon_ws (drop 16 (drop i text)), [])"
      by (subst findingsStart_hd) (simp add: at)
    moreover have "drop 16 (drop i text) = drop (i + 16) text" by (simp add: add.commute)
    ultimately show ?thesis using fp Some by (simp add: js_match_def scan_first_pos)
  qed
qed

lemma js_match_findingsEnd_index:
  "map_option m_index (js_match True findingsEnd body)
     = first_pos (\<lambda>t. list_ex (\<lambda>p. anchor_at p t) findingsTerminators) body"
proof -
  have fp: "first_pos (\<lambda>t. rmatch True (length body) findingsEnd t [] \<noteq> []) body
      = first_pos (\<lambda>t. list_ex (\<lambda>p. anchor_at p t) findingsTerminators) body"
    by (rule first_pos_cong) (rule findingsEnd_iff)
  show ?thesis
    unfolding js_match_def scan_first_pos fp by (simp split: option.splits)
qed

lemma extractBetween_findings:
  "extractBetween text findingsStart (Some findingsEnd)
     = map_option trim (spec_section_slice ''**Key Findings**'' findingsTerminators text)"
proof (cases "first_pos (anchor_at ''**Key Findings**'') text")
  case None
  then show ?thesis
    by (simp add: extractBetween_def js_match_findingsStart spec_section_slice_def)
next
  case (Some i)
  define body where "body = skip_colon_ws (drop (i + 16) text)"
  define startIndex where "startIndex = i + length (take (length (drop i text) - length body) (drop i text))"
  from first_pos_Some [OF Some] have i: "i \<le> length text" by simp
  obtain zs where zs: "drop (i + 16) text = zs @ body"
    unfolding body_def using skip_colon_ws_suffix by blast
  define pre where "pre = take 16 (drop i text) @ zs"
  have "drop i text = take 16 (drop i text) @ drop 16 (drop i text)"
    by (rule append_take_drop_id [symmetric])
  also have "drop 16 (drop i text) = zs @ body" using zs by (simp add: add.commute)
  finally have dec: "drop i text = pre @ body" by (simp add: pre_def)
  have tk: "take (length (drop i text) - length body) (drop i text) = pre"
    unfolding dec by simp
  have start: "startIndex = i + length pre"
    unfolding startIndex_def tk ..
  have "drop startIndex text = drop (length pre) (drop i text)"
    unfolding start by (simp add: add.commute)
  also have "\<dots> = body" unfolding dec by simp
  finally have drop_start: "drop startIndex text = body" .
  have len_body: "length text - startIndex = length body"
    using drop_start by (metis length_drop)
  have m: "js_match True findingsStart text =
      Some \<lparr>m_index = i, m_text = take (length (drop i text) - length body) (drop i text), m_caps = []\<rparr>"
    using Some by (simp add: js_match_findingsStart body_def)
  have spec: "spec_section_slice ''**Key Findings**'' findingsTerminators text =
      Some (case first_pos (\<lambda>t. list_ex (\<lambda>p. anchor_at p t) findingsTerminators) body of
              None \<Rightarrow> body | Some j \<Rightarrow> take j body)"
  proof -
    have len: "length ''**Key Findings**'' = 16" by simp
    show ?thesis
      unfolding spec_section_slice_def len Some body_def by (simp only: option.case Let_def)
  qed
  have "extractBetween text findingsStart (Some findingsEnd) =
      Some (trim (slice text startIndex
        (case js_match True findingsEnd (drop startIndex text) of
           None \<Rightarrow> length text
         | Some endMatch \<Rightarrow> startIndex + m_index endMatch)))"
    unfolding extractBetween_def m startIndex_def
    by (simp only: option.case Let_def found.select_convs)
  then have eb: "extractBetween text findingsStart (Some findingsEnd) =
      Some (trim (slice text startIndex
        (case js_match True findingsEnd body of
           None \<Rightarrow> length text
         | Some endMatch \<Rightarrow> startIndex + m_index endMatch)))"
    unfolding drop_start .
  show ?thesis
  proof (cases "js_match True findingsEnd body")
    case None
    with js_match_findingsEnd_index [of body]
    have "first_pos (\<lambda>t. list_ex (\<lambda>p. anchor_at p t) findingsTerminators) body = None" by simp
    with None show ?thesis
      unfolding spec eb by (simp add: slice_def drop_start len_body)
  next
    case (Some em)
    with js_match_findingsEnd_index [of body]
    have "first_pos (\<lambda>t. list_ex (\<lambda>p. anchor_at p t) findingsTerminators) body = Some (m_index em)"
      by simp
    with Some show ?thesis
      unfolding spec eb by (simp add: slice_def drop_start)
  qed
qed

subsection \<open>The medication pattern\<close>

lemma anchor_at_Cons:
  "anchor_at (a # p) (x # t) \<longleftrightarrow> ucode a = ucode x \<and> anchor_at p t"
  "anchor_at (a # p) [] \<longleftrightarrow> False"
  "anchor_at [] t \<longleftrightarrow> True"
  by (auto simp: anchor_at_def)

lemma ucode_eval:
  "ucode CHR ''m'' = 77" "ucode CHR ''M'' = 77" "ucode CHR ''d'' = 68" "ucode CHR ''.'' = 46"
  "ucode CHR '' '' = 32" "ucode CHR ''s'' = 83" "ucode CHR '':'' = 58"
  by (simp_all add: ucode_def code_def)

lemma rmatch_Seq_Alt:
  "rmatch ci n (Seq (Alt a b) r) s c = rmatch ci n (Seq a r) s c @ rmatch ci n (Seq b r) s c"
  by simp

lemma code_dot: "code CHR ''.'' = 46"
  by (simp add: code_def)

lemma cls_one_dot: "cls_has True [One CHR ''.''] y \<longleftrightarrow> y = CHR ''.''"
proof -
  have "cls_has True [One CHR ''.''] y \<longleftrightarrow> code y = 46"
    unfolding cls_has_def list_ex_Cons_iff list_ex_Nil_iff item_has.simps code_dot ucode_def lcode_def
    by (cases "97 \<le> code y \<and> code y \<le> 122"; cases "65 \<le> code y \<and> code y \<le> 90") auto
  then show ?thesis using code_eq_iff [of y "CHR ''.''"] by (simp only: code_dot)
qed

lemma cls_one_colon: "cls_has True [One CHR '':''] y \<longleftrightarrow> y = CHR '':''"
proof -
  have "cls_has True [One CHR '':''] y \<longleftrightarrow> code y = 58"
    unfolding cls_has_def list_ex_Cons_iff list_ex_Nil_iff item_has.simps code_colon ucode_def lcode_def
    by (cases "97 \<le> code y \<and> code y \<le> 122"; cases "65 \<le> code y \<and> code y \<le> 90") auto
  then show ?thesis using code_eq_iff [of y "CHR '':''"] by (simp only: code_colon)
qed

lemma star_cls_hd:
  "\<exists>ys. rmatch ci n (Star (Cls neg items)) s c
     = (dropWhile (\<lambda>x. cls_has ci items x \<noteq> neg) s, c) # ys"
proof -
  let ?P = "\<lambda>x. cls_has ci items x \<noteq> neg"
  let ?m = "length (takeWhile ?P s)"
  have "rmatch ci n (Star (Cls neg items)) s c = map (\<lambda>k. (drop k s, c)) (rev [0..<Suc ?m])"
    by (rule rmatch_star_cls)
  also have "\<dots> = (drop ?m s, c) # map (\<lambda>k. (drop k s, c)) (rev [0..<?m])" by simp
  finally show ?thesis by (simp add: dropWhile_eq_drop)
qed

lemma match_all_skip:
  "match_all ci n r i (length u) (u @ v) = match_all ci n r (i + length u) 0 v"
  by (induction u arbitrary: i) simp_all

lemma not_s_colon: "\<not> chr_eq True CHR ''s'' CHR '':''"
  by (simp add: chr_eq_def ucode_eval)

lemma plus_not_dot_hd:
  assumes "x \<noteq> []" "CHR ''.'' \<notin> set x"
  shows "\<exists>ys. rmatch True n (Plus not_dot) (x @ CHR ''.'' # rest) c = (CHR ''.'' # rest, c) # ys"
proof -
  from assms(1) obtain x0 xs where x: "x = x0 # xs" by (cases x) auto
  with assms(2) have x0: "x0 \<noteq> CHR ''.''" and xs: "CHR ''.'' \<notin> set xs" by auto
  let ?P = "\<lambda>y. cls_has True [One CHR ''.''] y \<noteq> True"
  have P: "?P = (\<lambda>y. y \<noteq> CHR ''.'')" by (simp add: cls_one_dot)
  have dw: "dropWhile ?P (xs @ CHR ''.'' # rest) = CHR ''.'' # rest"
    unfolding P using xs by (induction xs) auto
  from star_cls_hd [of True n True "[One CHR ''.'']" "xs @ CHR ''.'' # rest" c] dw
  obtain ys where "rmatch True n (Star not_dot) (xs @ CHR ''.'' # rest) c = (CHR ''.'' # rest, c) # ys"
    by auto
  then show ?thesis
    unfolding x by (simp add: rmatch_plus_cls cls_one_dot x0)
qed

lemma star_not_colon_at_colon:
  "rmatch True n (Star not_colon) (CHR '':'' # z) c = [(CHR '':'' # z, c)]"
  by (simp add: rmatch_star_cls cls_one_colon)

lemma med_rest_hd:
  assumes "x \<noteq> []" "CHR ''.'' \<notin> set x"
  shows "\<exists>ys. rmatch True n med_rest (CHR '':'' # x @ CHR ''.'' # rest) []
           = (CHR ''.'' # rest, [(1, x)]) # ys"
proof -
  from plus_not_dot_hd [OF assms, of n rest "[]"] obtain ys
    where p: "rmatch True n (Plus not_dot) (x @ CHR ''.'' # rest) [] = (CHR ''.'' # rest, []) # ys"
    by blast
  have len: "length (x @ CHR ''.'' # rest) - length (CHR ''.'' # rest) = length x" by simp
  have g: "rmatch True n (Seq (Grp 1 (Plus not_dot)) Emp) (x @ CHR ''.'' # rest) []
      = (CHR ''.'' # rest, [(1, x)])
        # map (\<lambda>(s', c'). (s', (1, take (length (x @ CHR ''.'' # rest) - length s') (x @ CHR ''.'' # rest)) # c')) ys"
    unfolding rmatch_Seq_Emp rmatch.simps(6) p by (simp add: len)
  have "rmatch True n med_rest (CHR '':'' # x @ CHR ''.'' # rest) []
      = rmatch True n (Seq (Grp 1 (Plus not_dot)) Emp) (x @ CHR ''.'' # rest) []"
    unfolding med_rest_def
    by (simp add: rmatch_opt_chr not_s_colon star_not_colon_at_colon chr_eq_colon
        del: rmatch.simps(6))
  with g show ?thesis by simp
qed

lemma medicationPattern_split:
  "medicationPattern
     = Seq (Alt (lit ''medication'') (Alt (lit ''medicine'') (lit ''drug''))) med_rest"
  by (simp only: medicationPattern_def med_rest_def seqs.simps)

lemma medication_anchor:
  "anchor_at ''medication'' (''Medication:'' @ z)"
  "\<not> anchor_at ''medicine'' (''Medication:'' @ z)"
  "\<not> anchor_at ''drug'' (''Medication:'' @ z)"
  by (simp_all add: anchor_at_Cons ucode_def code_def)

lemma medication_drop: "drop (length ''medication'') (''Medication:'' @ z) = CHR '':'' # z"
  by simp

lemma rmatch_medicationPattern:
  "rmatch True n medicationPattern (''Medication:'' @ z) [] = rmatch True n med_rest (CHR '':'' # z) []"
  unfolding medicationPattern_split rmatch_Seq_Alt rmatch_Seq_lit medication_drop
  by (simp only: medication_anchor if_True if_False append_Nil2)

lemma med_hd:
  assumes "x \<noteq> []" "CHR ''.'' \<notin> set x"
  shows "\<exists>ys. rmatch True n medicationPattern (''Medication:'' @ x @ CHR ''.'' # rest) []
           = (CHR ''.'' # rest, [(1, x)]) # ys"
  unfolding rmatch_medicationPattern by (rule med_rest_hd [OF assms])

lemma med_no_match:
  assumes "ucode c \<noteq> 77" "ucode c \<noteq> 68"
  shows "rmatch True n medicationPattern (c # s) [] = []"
proof -
  have "\<not> anchor_at ''medication'' (c # s)" "\<not> anchor_at ''medicine'' (c # s)"
    "\<not> anchor_at ''drug'' (c # s)"
    using assms by (simp_all add: anchor_at_Cons ucode_eval)
  then show ?thesis
    unfolding medicationPattern_split rmatch_Seq_Alt rmatch_Seq_lit by simp
qed

lemma med_no_match_Nil: "rmatch True n medicationPattern [] [] = []"
  unfolding medicationPattern_split rmatch_Seq_Alt rmatch_Seq_lit
  by (simp add: anchor_at_Cons)

lemma medicationLabel_split:
  "medicationLabel
     = Seq (Alt (lit ''medication'') (Alt (lit ''medicine'') (lit ''drug'')))
         (Seq (Opt (Chr CHR ''s'')) (Seq (Star not_colon) (Seq (Chr CHR '':'') Emp)))"
  by (simp only: medicationLabel_def seqs.simps)

lemma rmatch_medicationLabel:
  "rmatch True n medicationLabel (''Medication:'' @ z) [] = [(z, [])]"
proof -
  have "rmatch True n medicationLabel (''Medication:'' @ z) []
      = rmatch True n (Seq (Opt (Chr CHR ''s'')) (Seq (Star not_colon) (Seq (Chr CHR '':'') Emp)))
          (CHR '':'' # z) []"
    unfolding medicationLabel_split rmatch_Seq_Alt rmatch_Seq_lit medication_drop
    by (simp only: medication_anchor if_True if_False append_Nil2)
  also have "\<dots> = [(z, [])]"
    by (simp add: rmatch_opt_chr not_s_colon star_not_colon_at_colon chr_eq_colon)
  finally show ?thesis .
qed

text \<open>Cutting the label off a match of the medication pattern leaves what follows the colon.\<close>

lemma strip_label: "replace_first True medicationLabel (''Medication:'' @ z) = z"
proof -
  let ?u = "''edication:'' @ z"
  have t: "''Medication:'' @ z = CHR ''M'' # ?u" by simp
  have lm: "rmatch True n medicationLabel (CHR ''M'' # ?u) [] = [(z, [])]" for n
    using rmatch_medicationLabel [of n z] by simp
  have "scan True n medicationLabel 0 (CHR ''M'' # ?u)
      = Some \<lparr>m_index = 0, m_text = take (length (CHR ''M'' # ?u) - length z) (CHR ''M'' # ?u),
              m_caps = []\<rparr>" for n
    by (subst scan.simps(2)) (simp only: lm list.case prod.case)
  then have "js_match True medicationLabel (''Medication:'' @ z)
      = Some \<lparr>m_index = 0, m_text = ''Medication:'', m_caps = []\<rparr>"
    unfolding js_match_def t by simp
  then show ?thesis by (simp add: replace_first_def)
qed

lemma med_step:
  assumes "x \<noteq> []" "CHR ''.'' \<notin> set x"
  shows "match_all True n medicationPattern i 0 (''Medication:'' @ x @ CHR ''.'' # rest)
     = \<lparr>m_index = i, m_text = ''Medication:'' @ x, m_caps = [(1, x)]\<rparr>
       # match_all True n medicationPattern (i + length (''Medication:'' @ x)) 0 (CHR ''.'' # rest)"
proof -
  let ?u = "''edication:'' @ x"
  let ?v = "CHR ''.'' # rest"
  have t: "''Medication:'' @ x @ ?v = CHR ''M'' # (?u @ ?v)" by simp
  from med_hd [OF assms, of n rest] obtain ys
    where hd: "rmatch True n medicationPattern (CHR ''M'' # (?u @ ?v)) [] = (?v, [(1, x)]) # ys"
    unfolding t by blast
  have l: "length (CHR ''M'' # (?u @ ?v)) - length ?v = Suc (length ?u)" by simp
  have tk: "take (Suc (length ?u)) (CHR ''M'' # (?u @ ?v)) = ''Medication:'' @ x" by simp
  have "match_all True n medicationPattern i 0 (CHR ''M'' # (?u @ ?v))
      = \<lparr>m_index = i, m_text = ''Medication:'' @ x, m_caps = [(1, x)]\<rparr>
        # match_all True n medicationPattern (Suc i) (length ?u) (?u @ ?v)"
    by (subst match_all.simps(2)) (simp only: hd l tk Let_def list.case prod.case diff_Suc_1 less_irrefl if_False)
  also have "match_all True n medicationPattern (Suc i) (length ?u) (?u @ ?v)
      = match_all True n medicationPattern (Suc i + length ?u) 0 ?v"
    by (rule match_all_skip)
  finally show ?thesis unfolding t by simp
qed

lemma med_skip_sep:
  "match_all True n medicationPattern i 0 (CHR ''.'' # CHR '' '' # s)
     = match_all True n medicationPattern (Suc (Suc i)) 0 s"
proof -
  have a: "rmatch True n medicationPattern (CHR ''.'' # CHR '' '' # s) [] = []"
    by (rule med_no_match) (simp_all add: ucode_eval)
  have b: "rmatch True n medicationPattern (CHR '' '' # s) [] = []"
    by (rule med_no_match) (simp_all add: ucode_eval)
  show ?thesis
    by (subst match_all.simps(2), simp only: a list.case less_irrefl if_False)
       (subst match_all.simps(2), simp only: b list.case less_irrefl if_False)
qed

lemma med_end: "match_all True n medicationPattern i 0 ''.'' = []"
proof -
  have a: "rmatch True n medicationPattern ''.'' [] = []"
    by (rule med_no_match) (simp_all add: ucode_eval)
  show ?thesis
    by (subst match_all.simps(2), simp only: a list.case less_irrefl if_False)
       (simp add: med_no_match_Nil)
qed

section \<open>The fields of the extracted record\<close>

lemma extract_age:
  "age (extractMedicalDataFromAnalysis t)
     = map_option (\<lambda>m. parseInt (str (grp m 1))) (first_hit agePatterns t)"
  by (simp add: extractMedicalDataFromAnalysis_def Let_def)

lemma extract_sex: "sex (extractMedicalDataFromAnalysis t) = sex_loop sexPatterns t None"
  by (simp add: extractMedicalDataFromAnalysis_def Let_def)

lemma extract_findings:
  "findings (extractMedicalDataFromAnalysis t)
     = section_field (extractBetween t findingsStart (Some findingsEnd))"
  by (simp add: extractMedicalDataFromAnalysis_def Let_def)

lemma extract_medications_field:
  "medications (extractMedicalDataFromAnalysis t) = extract_medications t"
  by (simp add: extractMedicalDataFromAnalysis_def Let_def)

lemma extract_medications_texts:
  "extract_medications text =
     (if js_match_all True medicationPattern text = [] then None
      else Some (filter (\<lambda>med. length med > 0)
             (map (\<lambda>t. trim (replace_first True medicationLabel t))
                (map m_text (js_match_all True medicationPattern text)))))"
  by (cases "js_match_all True medicationPattern text") (simp_all add: extract_medications_def comp_def)

lemma three_matches:
  assumes "x1 \<noteq> []" "x2 \<noteq> []" "x3 \<noteq> []"
    and "CHR ''.'' \<notin> set x1" "CHR ''.'' \<notin> set x2" "CHR ''.'' \<notin> set x3"
  shows "map m_text (match_all True n medicationPattern i 0
           (''Medication:'' @ x1 @ ''. Medication:'' @ x2 @ ''. Medication:'' @ x3 @ ''.''))
         = [''Medication:'' @ x1, ''Medication:'' @ x2, ''Medication:'' @ x3]"
proof -
  let ?c3 = "''Medication:'' @ x3 @ CHR ''.'' # []"
  let ?c2 = "''Medication:'' @ x2 @ CHR ''.'' # CHR '' '' # ?c3"
  let ?c1 = "''Medication:'' @ x1 @ CHR ''.'' # CHR '' '' # ?c2"
  have t: "''Medication:'' @ x1 @ ''. Medication:'' @ x2 @ ''. Medication:'' @ x3 @ ''.'' = ?c1"
    by simp
  have m3: "map m_text (match_all True n medicationPattern j 0 ?c3) = [''Medication:'' @ x3]" for j
    unfolding med_step [OF assms(3,6)] med_end by simp
  have m2: "map m_text (match_all True n medicationPattern j 0 ?c2)
      = [''Medication:'' @ x2, ''Medication:'' @ x3]" for j
    unfolding med_step [OF assms(2,5)] med_skip_sep by (simp add: m3 del: append.simps)
  have m1: "map m_text (match_all True n medicationPattern j 0 ?c1)
      = [''Medication:'' @ x1, ''Medication:'' @ x2, ''Medication:'' @ x3]" for j
    unfolding med_step [OF assms(1,4)] med_skip_sep by (simp add: m2 del: append.simps)
  show ?thesis unfolding t by (rule m1)
qed

section \<open>The claims about the extraction engine and the formatter\<close>

text \<open>
  Claim C1. For every text the extractor returns a record (it is a total function: every
  loop of the model is a recursion with a termination proof and no operation of the source
  can raise on a string), and the record's \<open>originalText\<close> is the input. On the empty
  text every other field is absent.
\<close>

theorem extract_total:
  "originalText (extractMedicalDataFromAnalysis text) = text
   \<and> extractMedicalDataFromAnalysis [] = empty_record []"
proof
  show "originalText (extractMedicalDataFromAnalysis text) = text"
    by (simp add: extractMedicalDataFromAnalysis_def Let_def)
  show "extractMedicalDataFromAnalysis [] = empty_record []"
    by code_simp
qed

theorem extract_total_witness:
  "originalText (extractMedicalDataFromAnalysis ''Age: 7'') = ''Age: 7''
   \<and> extractMedicalDataFromAnalysis [] = empty_record []"
  using extract_total [of "''Age: 7''"] by simp

text \<open>
  Claim C2 says that a sex that is present is \<^verbatim>\<open>male\<close> or \<^verbatim>\<open>female\<close>. The first sex
  pattern captures the digits of the age in group 1 and the sex in group 2, and the loop reads
  group 1: on the text \<^verbatim>\<open>45-year-old male\<close> the field \<open>sex\<close> is the string \<^verbatim>\<open>45\<close>.
\<close>

theorem sex_is_age_digits:
  "sex (extractMedicalDataFromAnalysis ''45-year-old male'') = Some ''45''"
  unfolding extract_sex by code_simp

text \<open>
  Claim C3 expects the age 45 and the sex \<^verbatim>\<open>male\<close> for a text with the phrase
  \<^verbatim>\<open>45-year-old male\<close> and a later bare \<^verbatim>\<open>female\<close>. The first pattern does win over the
  later token, and the age is 45, but the sex it yields is the string \<^verbatim>\<open>45\<close>.
\<close>

theorem first_match_sex_is_digits:
  "age (extractMedicalDataFromAnalysis ''A 45-year-old male was seen by a female nurse'') = Some (Num 45)
   \<and> sex (extractMedicalDataFromAnalysis ''A 45-year-old male was seen by a female nurse'') = Some ''45''"
  unfolding extract_sex extract_age by code_simp

text \<open>
  Claim C8. On the text of the specification's example the findings are exactly
  \<^verbatim>\<open>A B C\<close>. In general the slice that \<^verbatim>\<open>extractBetween\<close> returns for the findings is the
  section slice of the specification, trimmed: the text between the first
  \<^verbatim>\<open>**Key Findings**\<close> header (compared without case, with its optional colon and white
  space) and the earliest later terminator, or the end of the text. The field \<open>findings\<close>
  is that slice without a leading enumerator, and is absent when the slice is empty.
\<close>

theorem findings_slice:
  "findings (extractMedicalDataFromAnalysis ''**Key Findings**: A B C **Diagnostic Assessment**: D E'')
     = Some ''A B C''
   \<and> extractBetween text findingsStart (Some findingsEnd)
     = map_option trim (spec_section_slice ''**Key Findings**'' findingsTerminators text)
   \<and> findings (extractMedicalDataFromAnalysis text)
     = section_field (map_option trim (spec_section_slice ''**Key Findings**'' findingsTerminators text))"
proof (intro conjI)
  show "findings (extractMedicalDataFromAnalysis ''**Key Findings**: A B C **Diagnostic Assessment**: D E'')
     = Some ''A B C''"
    unfolding extract_findings by code_simp
  show "extractBetween text findingsStart (Some findingsEnd)
     = map_option trim (spec_section_slice ''**Key Findings**'' findingsTerminators text)"
    by (rule extractBetween_findings)
  show "findings (extractMedicalDataFromAnalysis text)
     = section_field (map_option trim (spec_section_slice ''**Key Findings**'' findingsTerminators text))"
    unfolding extract_findings extractBetween_findings ..
qed

theorem findings_slice_witness:
  "extractBetween ''**key findings** 1. ok **Disclaimer'' findingsStart (Some findingsEnd) = Some ''1. ok''
   \<and> findings (extractMedicalDataFromAnalysis ''**key findings** 1. ok **Disclaimer'') = Some ''ok''"
proof -
  have s: "spec_section_slice ''**Key Findings**'' findingsTerminators ''**key findings** 1. ok **Disclaimer''
     = Some ''1. ok ''"
    by code_simp
  have t: "trim ''1. ok '' = ''1. ok''" by code_simp
  have f: "section_field (Some ''1. ok'') = Some ''ok''" by code_simp
  from findings_slice [of "''**key findings** 1. ok **Disclaimer''"] show ?thesis
    unfolding s by (simp add: t f)
qed

text \<open>
  Claim C9 says that three medication clauses yield three elements. The pattern reads on
  from the colon to the next full stop, whatever lies between: clauses that are separated by
  commas or by line breaks are one match, and the list has one element.
\<close>

theorem medication_clauses_merged_counterexample:
  "medications (extractMedicalDataFromAnalysis ''Medication: A, Medication: B, Medication: C'')
     = Some [''A, Medication: B, Medication: C'']
   \<and> medications (extractMedicalDataFromAnalysis
        (''Medication: A'' @ newline # ''Medication: B'' @ newline # ''Medication: C''))
     = Some [''A'' @ newline # ''Medication: B'' @ newline # ''Medication: C'']"
  unfolding extract_medications_field by code_simp

text \<open>
  Claim C9 as amended. Three clauses \<^verbatim>\<open>Medication:X\<close>, each ended by a full stop, whose
  \<open>X\<close> are not empty and hold no full stop, are three matches: the list is the three
  \<open>X\<close>, trimmed, in the order of the text, without those that are empty after trimming.
  Nothing asks the \<open>X\<close> to differ, so duplicates stay.
\<close>

theorem three_medication_clauses:
  assumes "x1 \<noteq> []" "x2 \<noteq> []" "x3 \<noteq> []"
    and "CHR ''.'' \<notin> set x1" "CHR ''.'' \<notin> set x2" "CHR ''.'' \<notin> set x3"
  shows "medications (extractMedicalDataFromAnalysis
           (''Medication:'' @ x1 @ ''. Medication:'' @ x2 @ ''. Medication:'' @ x3 @ ''.''))
         = Some (filter (\<lambda>med. length med > 0) [trim x1, trim x2, trim x3])"
proof -
  let ?text = "''Medication:'' @ x1 @ ''. Medication:'' @ x2 @ ''. Medication:'' @ x3 @ ''.''"
  have texts: "map m_text (js_match_all True medicationPattern ?text)
      = [''Medication:'' @ x1, ''Medication:'' @ x2, ''Medication:'' @ x3]"
    unfolding js_match_all_def by (rule three_matches [OF assms])
  then have some: "js_match_all True medicationPattern ?text \<noteq> []" by auto
  have "extract_medications ?text
      = Some (filter (\<lambda>med. length med > 0) [trim x1, trim x2, trim x3])"
    unfolding extract_medications_texts texts using some
    by (simp add: strip_label del: append.simps)
  then show ?thesis unfolding extract_medications_field .
qed

theorem three_medication_clauses_witness:
  "medications (extractMedicalDataFromAnalysis
      ''Medication: Aspirin 75 mg. Medication: Metformin. Medication: Aspirin 75 mg.'')
     = Some [''Aspirin 75 mg'', ''Metformin'', ''Aspirin 75 mg'']
   \<and> medications (extractMedicalDataFromAnalysis
      ''Medication: Aspirin 75 mg. Medication: . Medication: Metformin.'')
     = Some [''Aspirin 75 mg'', ''Metformin'']"
proof -
  have t: "trim '' Aspirin 75 mg'' = ''Aspirin 75 mg''" "trim '' Metformin'' = ''Metformin''"
    "trim '' '' = []"
    by code_simp+
  have d: "CHR ''.'' \<notin> set '' Aspirin 75 mg''" "CHR ''.'' \<notin> set '' Metformin''"
    "CHR ''.'' \<notin> set '' ''" by simp_all
  have n: "'' Aspirin 75 mg'' \<noteq> []" "'' Metformin'' \<noteq> []" "'' '' \<noteq> []" by simp_all
  from three_medication_clauses [OF n(1) n(2) n(1) d(1) d(2) d(1)]
    three_medication_clauses [OF n(1) n(3) n(2) d(1) d(3) d(2)]
  show ?thesis unfolding t by simp
qed

text \<open>
  Claim C10. The formatter tests the age for truthiness, so the age 0 is left out like an
  absent age: a record with the age 0 prints as the same record without an age, and a record
  whose only optional field is the age 0 prints as the empty string.
\<close>

theorem format_age_zero:
  "formatExtractedDataForDisplay (data\<lparr>age := Some (Num 0)\<rparr>)
     = formatExtractedDataForDisplay (data\<lparr>age := None\<rparr>)
   \<and> formatExtractedDataForDisplay ((empty_record text)\<lparr>age := Some (Num 0)\<rparr>) = []"
  by (simp add: formatExtractedDataForDisplay_def empty_record_def)

theorem format_age_zero_witness:
  "formatExtractedDataForDisplay ((empty_record ''x'')\<lparr>patientName := Some ''Ann'', age := Some (Num 0)\<rparr>)
     = ''**Patient:** Name: Ann''
   \<and> formatExtractedDataForDisplay ((empty_record ''x'')\<lparr>age := Some (Num 0)\<rparr>) = []"
  using format_age_zero [of "(empty_record ''x'')\<lparr>patientName := Some ''Ann''\<rparr>" "''x''"]
  by (simp add: formatExtractedDataForDisplay_def empty_record_def)

section \<open>Properties of the updates and the events\<close>

lemma in_map_if:
  "d \<in> set (map (\<lambda>x. if P x then f x else x) ds) \<Longrightarrow>
     (\<exists>x. x \<in> set ds \<and> P x \<and> d = f x) \<or> (d \<in> set ds \<and> \<not> P d)"
proof (induction ds)
  case Nil
  then show ?case by simp
next
  case (Cons y ys)
  from Cons.prems have "d = (if P y then f y else y) \<or> d \<in> set (map (\<lambda>x. if P x then f x else x) ys)"
    by (simp only: list.map list.set insert_iff)
  then show ?case
  proof
    assume "d = (if P y then f y else y)"
    then show ?thesis by (cases "P y") (simp_all only: if_True if_False list.set insert_iff, blast+)
  next
    assume "d \<in> set (map (\<lambda>x. if P x then f x else x) ys)"
    from Cons.IH [OF this] show ?thesis by (simp only: list.set insert_iff) blast
  qed
qed

lemma set_uploading_docs:
  assumes "d \<in> set (apply_update (SetUploading i) ds)" "doc_id d = i"
  shows "status d = Uploading \<and> uploadProgress d = Some 0"
proof -
  from assms(1) have "d \<in> set (map (\<lambda>doc. if doc_id doc = i
      then doc\<lparr>status := Uploading, uploadProgress := Some 0\<rparr> else doc) ds)"
    by (simp only: apply_update.simps)
  from in_map_if [OF this] assms(2) obtain x where "d = x\<lparr>status := Uploading, uploadProgress := Some 0\<rparr>"
    by blast
  then show ?thesis by simp
qed


lemma set_extracting_docs:
  assumes "d \<in> set (apply_update (SetExtracting i) ds)" "doc_id d = i"
  shows "status d = Extracting \<and> uploadProgress d = Some 100"
proof -
  from assms(1) have "d \<in> set (map (\<lambda>doc. if doc_id doc = i
      then doc\<lparr>status := Extracting, uploadProgress := Some 100\<rparr> else doc) ds)"
    by (simp only: apply_update.simps)
  from in_map_if [OF this] assms(2) obtain x where "d = x\<lparr>status := Extracting, uploadProgress := Some 100\<rparr>"
    by blast
  then show ?thesis by simp
qed

lemma set_done_docs:
  assumes "d \<in> set (apply_update (SetDone i md) ds)" "doc_id d = i"
  shows "status d = Done \<and> metadata d = Some md"
proof -
  from assms(1) have "d \<in> set (map (\<lambda>doc. if doc_id doc = i
      then doc\<lparr>status := Done, metadata := Some md\<rparr> else doc) ds)"
    by (simp only: apply_update.simps)
  from in_map_if [OF this] assms(2) obtain x where "d = x\<lparr>status := Done, metadata := Some md\<rparr>"
    by blast
  then show ?thesis by simp
qed

lemma set_done_keeps:
  "map uploadProgress (apply_update (SetDone i md) ds) = map uploadProgress ds
   \<and> map doc_id (apply_update (SetDone i md) ds) = map doc_id ds"
  by (induction ds) simp_all

lemma set_progress_keeps_status:
  "map status (apply_update (SetProgress i p) ds) = map status ds"
  by (induction ds) simp_all

lemma apply_updates_single: "apply_updates [u] ds = apply_update u ds"
  by (simp add: apply_updates_def)

lemma apply_updates_Nil: "apply_updates [] ds = ds"
  by (simp add: apply_updates_def)

lemma documents_step:
  "documents (step ev w) = apply_updates (issued ev w) (documents w)"
  by (simp add: step_def)

lemma uploads_step: "uploads (step ev w) = closures ev w"
  by (simp add: step_def)

lemma issued_timeout:
  "uploads w i = Some u \<Longrightarrow> timeout_pending u \<Longrightarrow> issued (UploadTimeout i) w = [SetExtracting i]"
  by simp

lemma issued_failure:
  "uploads w i = Some u \<Longrightarrow> analysing u \<Longrightarrow> failure out = Some msg \<Longrightarrow>
     issued (AnalysisSettled i out a) w = [SetDone i (errorMetadata a msg)]"
  by simp

lemma issued_settled:
  assumes "uploads w i = Some u" "analysing u"
  shows "\<exists>md. issued (AnalysisSettled i out a) w = [SetDone i md]"
proof (cases "failure out")
  case None
  then obtain r where "out = Resolved r" by (cases out) simp_all
  with None assms show ?thesis by simp
next
  case (Some msg)
  with assms show ?thesis by simp
qed

lemma tick_keeps_status: "map status (documents (step (Tick i r) w)) = map status (documents w)"
proof (cases "uploads w i")
  case None
  then show ?thesis by (simp add: documents_step apply_updates_Nil)
next
  case (Some u)
  then show ?thesis
    by (cases "ticking u \<and> \<not> 100 \<le> progress u + r * 10")
      (simp_all add: documents_step apply_updates_Nil apply_updates_single set_progress_keeps_status
         del: apply_update.simps)
qed






lemma uploading_closure:
  "uploads (step (FilesAdded [(scan_png, amb1)]) app0) ''doc_1'' = Some pending_upload"
  by (simp add: uploads_step handleFilesAdded_def handleFile_def isImage_def scan_png_def amb1_def
      app0_def pending_upload_def Let_def)

lemma extracting_closure:
  "uploads (step (UploadTimeout ''doc_1'') (step (FilesAdded [(scan_png, amb1)]) app0)) ''doc_1''
     = Some analysing_upload"
  by (simp add: uploads_step [of "UploadTimeout _"] uploading_closure analysing_upload_def
      pending_upload_def)

lemma sole_doc:
  assumes "map doc_id ds = [i]" "\<forall>d \<in> set ds. doc_id d = i \<longrightarrow> P d"
  shows "\<exists>d. ds = [d] \<and> P d"
proof -
  from assms(1) obtain d where "ds = [d]" "doc_id d = i" by (cases ds) auto
  with assms(2) show ?thesis by simp
qed

lemma extracting_ids:
  "map doc_id (documents (step (UploadTimeout ''doc_1'') (step (FilesAdded [(scan_png, amb1)]) app0)))
     = [''doc_1'']"
  by code_simp

text \<open>A voice note reaches \<^verbatim>\<open>done\<close> in the one update that also sets its progress to 100.\<close>

lemma voice_done_progress:
  assumes "p \<ge> 100" "n \<in> set (voiceTick i p ns)" "v_id n = i"
  shows "v_status n = VDone \<and> v_uploadProgress n = Some 100"
proof -
  from assms(1,2) have "n \<in> set (map (\<lambda>note. if v_id note = i
      then note\<lparr>v_status := VDone, v_uploadProgress := Some 100,
                transcript := Some ''This is a sample transcript of the voice note. The actual transcription would be processed by AI.''\<rparr>
      else note) ns)"
    by (simp only: voiceTick_def if_True)
  from in_map_if [OF this] assms(3) obtain x where
    "n = x\<lparr>v_status := VDone, v_uploadProgress := Some 100,
            transcript := Some ''This is a sample transcript of the voice note. The actual transcription would be processed by AI.''\<rparr>"
    by blast
  then show ?thesis by simp
qed

section \<open>The claims about the document lifecycle\<close>

text \<open>
  Claim C4 says that a record carries \<open>uploadProgress\<close> only while it is uploading. The
  update that ends the upload writes \<^verbatim>\<open>uploadProgress: 100\<close> together with the status
  \<^verbatim>\<open>extracting\<close>, and the update to \<^verbatim>\<open>done\<close> leaves the field alone: after both
  transitions the record of an image still carries the value 100.
\<close>

theorem uploadProgress_kept_counterexample:
  "map status (documents (run [FilesAdded [(scan_png, amb1)], UploadTimeout ''doc_1''] app0)) = [Extracting]
   \<and> map uploadProgress (documents (run [FilesAdded [(scan_png, amb1)], UploadTimeout ''doc_1''] app0))
       = [Some 100]
   \<and> map status (documents (run [FilesAdded [(scan_png, amb1)], UploadTimeout ''doc_1'',
         AnalysisSettled ''doc_1'' (Rejected ''Failed to analyze image: offline'') amb2] app0)) = [Done]
   \<and> map uploadProgress (documents (run [FilesAdded [(scan_png, amb1)], UploadTimeout ''doc_1'',
         AnalysisSettled ''doc_1'' (Rejected ''Failed to analyze image: offline'') amb2] app0))
       = [Some 100]"
  by code_simp

text \<open>
  Claim C4 as amended. A new record is queued and has no \<open>uploadProgress\<close>; entering
  \<^verbatim>\<open>uploading\<close> sets it to 0; when the timeout of a pending upload fires, the record is
  extracting with \<open>uploadProgress = 100\<close>; when the analysis settles, whatever its outcome,
  the record is done and the \<open>uploadProgress\<close> of every record is what it was before.
\<close>

theorem uploadProgress_not_cleared:
  assumes "uploads w i = Some u"
  shows "status (newDoc w f a) = Queued \<and> uploadProgress (newDoc w f a) = None
    \<and> (\<forall>d \<in> set (apply_update (SetUploading i) ds).
          doc_id d = i \<longrightarrow> status d = Uploading \<and> uploadProgress d = Some 0)
    \<and> (timeout_pending u \<longrightarrow>
          (\<forall>d \<in> set (documents (step (UploadTimeout i) w)).
             doc_id d = i \<longrightarrow> status d = Extracting \<and> uploadProgress d = Some 100))
    \<and> (analysing u \<longrightarrow>
          map uploadProgress (documents (step (AnalysisSettled i out a) w))
            = map uploadProgress (documents w)
          \<and> (\<forall>d \<in> set (documents (step (AnalysisSettled i out a) w)).
                doc_id d = i \<longrightarrow> status d = Done))"
proof -
  have new: "status (newDoc w f a) = Queued \<and> uploadProgress (newDoc w f a) = None"
    by (simp add: newDoc_def)
  have up: "\<forall>d \<in> set (apply_update (SetUploading i) ds).
          doc_id d = i \<longrightarrow> status d = Uploading \<and> uploadProgress d = Some 0"
    using set_uploading_docs by blast
  have ex: "\<forall>d \<in> set (documents (step (UploadTimeout i) w)).
             doc_id d = i \<longrightarrow> status d = Extracting \<and> uploadProgress d = Some 100"
    if "timeout_pending u"
    unfolding documents_step issued_timeout [OF assms that] apply_updates_single
    using set_extracting_docs by blast
  have dn: "map uploadProgress (documents (step (AnalysisSettled i out a) w))
            = map uploadProgress (documents w)
          \<and> (\<forall>d \<in> set (documents (step (AnalysisSettled i out a) w)).
                doc_id d = i \<longrightarrow> status d = Done)"
    if "analysing u"
  proof -
    from issued_settled [OF assms that] obtain md
      where iss: "issued (AnalysisSettled i out a) w = [SetDone i md]" by blast
    show ?thesis
      unfolding documents_step iss apply_updates_single
      using set_done_docs set_done_keeps by blast
  qed
  from new up ex dn show ?thesis by blast
qed

theorem uploadProgress_not_cleared_witness:
  "map status (documents (step (UploadTimeout ''doc_1'') (step (FilesAdded [(scan_png, amb1)]) app0)))
       = [Extracting]
   \<and> map uploadProgress (documents (step (UploadTimeout ''doc_1'')
         (step (FilesAdded [(scan_png, amb1)]) app0))) = [Some 100]
   \<and> map status (documents (step (AnalysisSettled ''doc_1'' offline amb2)
         (step (UploadTimeout ''doc_1'') (step (FilesAdded [(scan_png, amb1)]) app0)))) = [Done]
   \<and> map uploadProgress (documents (step (AnalysisSettled ''doc_1'' offline amb2)
         (step (UploadTimeout ''doc_1'') (step (FilesAdded [(scan_png, amb1)]) app0)))) = [Some 100]"
proof -
  let ?w1 = "step (FilesAdded [(scan_png, amb1)]) app0"
  let ?w2 = "step (UploadTimeout ''doc_1'') ?w1"
  let ?w3 = "step (AnalysisSettled ''doc_1'' offline amb2) ?w2"
  have a: "timeout_pending pending_upload" by (simp add: pending_upload_def)
  have b: "analysing analysing_upload" by (simp add: analysing_upload_def)
  from uploadProgress_not_cleared [OF uploading_closure, of scan_png amb1 "[]" offline] a
  have "\<forall>d \<in> set (documents ?w2). doc_id d = ''doc_1'' \<longrightarrow>
          status d = Extracting \<and> uploadProgress d = Some 100" by blast
  from sole_doc [OF extracting_ids this]
  have e: "map status (documents ?w2) = [Extracting] \<and> map uploadProgress (documents ?w2) = [Some 100]"
    by auto
  from uploadProgress_not_cleared [OF extracting_closure, of scan_png amb2 "[]" offline] b
  have keep: "map uploadProgress (documents ?w3) = map uploadProgress (documents ?w2)"
    and dn: "\<forall>d \<in> set (documents ?w3). doc_id d = ''doc_1'' \<longrightarrow> status d = Done" by blast+
  have "map doc_id (documents ?w3) = [''doc_1'']" by code_simp
  from sole_doc [OF this dn] have "map status (documents ?w3) = [Done]" by auto
  with e keep show ?thesis by simp
qed




text \<open>
  Claim C6 says that a progress tick that arrives after the record has left
  \<^verbatim>\<open>uploading\<close> changes neither its status nor its \<open>uploadProgress\<close>. The timeout that
  ends the upload does not clear the interval, and the tick does not look at the status: a
  tick after the timeout leaves the status alone (\<open>tick_keeps_status\<close>) but writes the
  counter, here 10, over the 100 that the end of the upload had set.
\<close>

theorem late_tick_overwrites_progress:
  "map status (documents (run [FilesAdded [(scan_png, amb1)], Tick ''doc_1'' (1 / 2),
         UploadTimeout ''doc_1''] app0)) = [Extracting]
   \<and> map uploadProgress (documents (run [FilesAdded [(scan_png, amb1)], Tick ''doc_1'' (1 / 2),
         UploadTimeout ''doc_1''] app0)) = [Some 100]
   \<and> map status (documents (run [FilesAdded [(scan_png, amb1)], Tick ''doc_1'' (1 / 2),
         UploadTimeout ''doc_1'', Tick ''doc_1'' (1 / 2)] app0)) = [Extracting]
   \<and> map uploadProgress (documents (run [FilesAdded [(scan_png, amb1)], Tick ''doc_1'' (1 / 2),
         UploadTimeout ''doc_1'', Tick ''doc_1'' (1 / 2)] app0)) = [Some 10]"
  by code_simp

text \<open>
  Claim C7. When the analysis call of an upload in flight rejects, or resolves with
  \<^verbatim>\<open>success = false\<close>, there is an error message (the message of the rejection, or
  the response's error, or a default when the response has none), the documents keep their
  ids, and every record of that id is done, not in error, with the placeholder metadata
  built from the message: the doctor \<^verbatim>\<open>Analysis Failed\<close>, today's date, the type
  \<^verbatim>\<open>Medical Document\<close>, a record id that starts with \<^verbatim>\<open>ERROR-\<close> and a text that
  carries the message and asks for a manual review.
\<close>

theorem analysis_failure_done:
  assumes "uploads w i = Some u" "analysing u"
    and "out = Rejected m \<or> (out = Resolved r \<and> \<not> success r)"
  shows "\<exists>msg. failure out = Some msg
    \<and> map doc_id (documents (step (AnalysisSettled i out a) w)) = map doc_id (documents w)
    \<and> (\<forall>d \<in> set (documents (step (AnalysisSettled i out a) w)).
          doc_id d = i \<longrightarrow> status d = Done \<and> status d \<noteq> Error \<and> metadata d = Some (errorMetadata a msg)
            \<and> metadata d =
                Some \<lparr>md_doctorName = Some ''Analysis Failed'', md_date = Some (today a),
                       md_documentType = Some ''Medical Document'',
                       recordId = Some (''ERROR-'' @ rnd a),
                       extractedText =
                         Some (''Python backend analysis failed: ''
                               @ (if msg \<noteq> [] then msg else ''Error'')
                               @ ''. Manual review required.''),
                       fullAnalysis = None, generatedReport = None, reportGeneratedAt = None\<rparr>)
    \<and> (out = Rejected m \<longrightarrow> msg = m)
    \<and> (out = Resolved r \<longrightarrow>
          msg = (case r_error r of
                   None \<Rightarrow> ''Python backend analysis failed''
                 | Some e \<Rightarrow> if e \<noteq> [] then e else ''Python backend analysis failed''))"
proof -
  from assms(3) obtain msg where f: "failure out = Some msg"
  proof
    assume "out = Rejected m"
    then have "failure out = Some m" by simp
    then show ?thesis by (rule that)
  next
    assume "out = Resolved r \<and> \<not> success r"
    then have "failure out =
        Some (if truthy (r_error r) then str (r_error r) else ''Python backend analysis failed'')"
      by simp
    then show ?thesis by (rule that)
  qed
  have rej: "msg = m" if "out = Rejected m" using that f by simp
  have res: "msg = (case r_error r of
                   None \<Rightarrow> ''Python backend analysis failed''
                 | Some e \<Rightarrow> if e \<noteq> [] then e else ''Python backend analysis failed'')"
    if "out = Resolved r"
  proof -
    from that assms(3) have "\<not> success r" by simp
    with that f show ?thesis by (cases "r_error r") (simp_all split: if_splits)
  qed
  have iss: "issued (AnalysisSettled i out a) w = [SetDone i (errorMetadata a msg)]"
    by (rule issued_failure [OF assms(1,2) f])
  have ids: "map doc_id (documents (step (AnalysisSettled i out a) w)) = map doc_id (documents w)"
    unfolding documents_step iss apply_updates_single using set_done_keeps by blast
  have fields: "errorMetadata a msg =
      \<lparr>md_doctorName = Some ''Analysis Failed'', md_date = Some (today a),
       md_documentType = Some ''Medical Document'',
       recordId = Some (''ERROR-'' @ rnd a),
       extractedText =
         Some (''Python backend analysis failed: ''
               @ (if msg \<noteq> [] then msg else ''Error'')
               @ ''. Manual review required.''),
       fullAnalysis = None, generatedReport = None, reportGeneratedAt = None\<rparr>"
    by (simp add: errorMetadata_def error_text_def)
  have "status d = Done \<and> status d \<noteq> Error \<and> metadata d = Some (errorMetadata a msg)
      \<and> metadata d =
          Some \<lparr>md_doctorName = Some ''Analysis Failed'', md_date = Some (today a),
                 md_documentType = Some ''Medical Document'',
                 recordId = Some (''ERROR-'' @ rnd a),
                 extractedText =
                   Some (''Python backend analysis failed: ''
                         @ (if msg \<noteq> [] then msg else ''Error'')
                         @ ''. Manual review required.''),
                 fullAnalysis = None, generatedReport = None, reportGeneratedAt = None\<rparr>"
    if "d \<in> set (documents (step (AnalysisSettled i out a) w))" "doc_id d = i" for d
  proof -
    from that(1) have "d \<in> set (apply_update (SetDone i (errorMetadata a msg)) (documents w))"
      unfolding documents_step iss apply_updates_single .
    from set_done_docs [OF this that(2)]
    have "status d = Done" "metadata d = Some (errorMetadata a msg)" by simp_all
    then show ?thesis using fields by simp
  qed
  with f ids rej res show ?thesis by blast
qed

theorem analysis_failure_done_witness:
  "map status (documents (step (AnalysisSettled ''doc_1'' offline amb2)
       (step (UploadTimeout ''doc_1'') (step (FilesAdded [(scan_png, amb1)]) app0)))) = [Done]
   \<and> map metadata (documents (step (AnalysisSettled ''doc_1'' offline amb2)
       (step (UploadTimeout ''doc_1'') (step (FilesAdded [(scan_png, amb1)]) app0))))
     = [Some (errorMetadata amb2 ''Failed to analyze image: Failed to fetch'')]
   \<and> map status (documents (step (AnalysisSettled ''doc_1'' (Resolved refused) amb2)
       (step (UploadTimeout ''doc_1'') (step (FilesAdded [(scan_png, amb1)]) app0)))) = [Done]
   \<and> map metadata (documents (step (AnalysisSettled ''doc_1'' (Resolved refused) amb2)
       (step (UploadTimeout ''doc_1'') (step (FilesAdded [(scan_png, amb1)]) app0))))
     = [Some (errorMetadata amb2 ''model unavailable'')]
   \<and> map metadata (documents (step (AnalysisSettled ''doc_1'' offline amb2)
       (step (UploadTimeout ''doc_1'') (step (FilesAdded [(scan_png, amb1)]) app0))))
     = [Some \<lparr>md_doctorName = Some ''Analysis Failed'', md_date = Some ''2024-03-15'',
               md_documentType = Some ''Medical Document'', recordId = Some ''ERROR-EF56GH78'',
               extractedText = Some ''Python backend analysis failed: Failed to analyze image: Failed to fetch. Manual review required.'',
               fullAnalysis = None, generatedReport = None, reportGeneratedAt = None\<rparr>]
   \<and> map metadata (documents (step (AnalysisSettled ''doc_1'' (Resolved refused) amb2)
       (step (UploadTimeout ''doc_1'') (step (FilesAdded [(scan_png, amb1)]) app0))))
     = [Some \<lparr>md_doctorName = Some ''Analysis Failed'', md_date = Some ''2024-03-15'',
               md_documentType = Some ''Medical Document'', recordId = Some ''ERROR-EF56GH78'',
               extractedText = Some ''Python backend analysis failed: model unavailable. Manual review required.'',
               fullAnalysis = None, generatedReport = None, reportGeneratedAt = None\<rparr>]"
proof -
  let ?w2 = "step (UploadTimeout ''doc_1'') (step (FilesAdded [(scan_png, amb1)]) app0)"
  let ?md1 = "\<lparr>md_doctorName = Some ''Analysis Failed'', md_date = Some ''2024-03-15'',
               md_documentType = Some ''Medical Document'', recordId = Some ''ERROR-EF56GH78'',
               extractedText = Some ''Python backend analysis failed: Failed to analyze image: Failed to fetch. Manual review required.'',
               fullAnalysis = None, generatedReport = None, reportGeneratedAt = None\<rparr>"
  let ?md2 = "\<lparr>md_doctorName = Some ''Analysis Failed'', md_date = Some ''2024-03-15'',
               md_documentType = Some ''Medical Document'', recordId = Some ''ERROR-EF56GH78'',
               extractedText = Some ''Python backend analysis failed: model unavailable. Manual review required.'',
               fullAnalysis = None, generatedReport = None, reportGeneratedAt = None\<rparr>"
  have b: "analysing analysing_upload" by (simp add: analysing_upload_def)
  have c: "offline = Rejected ''Failed to analyze image: Failed to fetch''
      \<or> (offline = Resolved refused \<and> \<not> success refused)"
    by (simp add: offline_def)
  have d: "Resolved refused = Rejected []
      \<or> (Resolved refused = Resolved refused \<and> \<not> success refused)" by (simp add: refused_def)
  have f1: "failure offline = Some ''Failed to analyze image: Failed to fetch''"
    by (simp add: offline_def)
  have f2: "failure (Resolved refused) = Some ''model unavailable''"
    by (simp add: refused_def)
  have a2: "today amb2 = ''2024-03-15''" "rnd amb2 = ''EF56GH78''" by (simp_all add: amb2_def)
  from analysis_failure_done [OF extracting_closure b c, of amb2] f1
  have ids1: "map doc_id (documents (step (AnalysisSettled ''doc_1'' offline amb2) ?w2)) = [''doc_1'']"
    and all1: "\<forall>d \<in> set (documents (step (AnalysisSettled ''doc_1'' offline amb2) ?w2)).
        doc_id d = ''doc_1'' \<longrightarrow> status d = Done
          \<and> metadata d = Some (errorMetadata amb2 ''Failed to analyze image: Failed to fetch'')
          \<and> metadata d = Some ?md1"
    using extracting_ids unfolding a2 by auto
  from analysis_failure_done [OF extracting_closure b d, of amb2] f2
  have ids2: "map doc_id (documents (step (AnalysisSettled ''doc_1'' (Resolved refused) amb2) ?w2)) = [''doc_1'']"
    and all2: "\<forall>d \<in> set (documents (step (AnalysisSettled ''doc_1'' (Resolved refused) amb2) ?w2)).
        doc_id d = ''doc_1'' \<longrightarrow> status d = Done
          \<and> metadata d = Some (errorMetadata amb2 ''model unavailable'')
          \<and> metadata d = Some ?md2"
    using extracting_ids unfolding a2 by auto
  from sole_doc [OF ids1 all1] obtain d1
    where d1: "documents (step (AnalysisSettled ''doc_1'' offline amb2) ?w2) = [d1]"
      "status d1 = Done"
      "metadata d1 = Some (errorMetadata amb2 ''Failed to analyze image: Failed to fetch'')"
      "metadata d1 = Some ?md1" by blast
  from sole_doc [OF ids2 all2] obtain d2
    where d2: "documents (step (AnalysisSettled ''doc_1'' (Resolved refused) amb2) ?w2) = [d2]"
      "status d2 = Done"
      "metadata d2 = Some (errorMetadata amb2 ''model unavailable'')"
      "metadata d2 = Some ?md2" by blast
  have "map metadata [d1] = [Some ?md1]" "map metadata [d2] = [Some ?md2]"
    using d1(4) d2(4) by simp_all
  moreover have "map metadata [d1] = [Some (errorMetadata amb2 ''Failed to analyze image: Failed to fetch'')]"
    "map metadata [d2] = [Some (errorMetadata amb2 ''model unavailable'')]"
    using d1(3) d2(3) by simp_all
  moreover have "map status [d1] = [Done]" "map status [d2] = [Done]" using d1(2) d2(2) by simp_all
  ultimately show ?thesis unfolding d1(1) d2(1) by blast
qed

end
